theory Spec2Isabelle
  imports Complex_Main
begin

section \<open>Errors and tensors\<close>

text \<open>
  The track predictor of \<^verbatim>\<open>vggsfm/models/track_modules/base_track_predictor.py\<close> is
  embedded function by function. Every Python exception the code can raise is a value
  of \<open>error\<close>; a computation that may raise has type \<open>error + 'a\<close>, with \<open>Inl\<close> the
  exception. Tensor entries are idealised as real numbers: rounding, infinities and NaN
  of the floating-point types are outside the model.
\<close>

datatype error =
  ValueError | AssertionError | AttributeError | IndexError | RuntimeError
  | EinopsError | ZeroDivisionError

definition ebind :: "error + 'a \<Rightarrow> ('a \<Rightarrow> error + 'b) \<Rightarrow> error + 'b" where
  "ebind m f = (case m of Inl e \<Rightarrow> Inl e | Inr x \<Rightarrow> f x)"

text \<open>
  A tensor is its shape and its entries in row-major (contiguous) order, as
  \<^verbatim>\<open>torch.Tensor\<close> presents them to the code.
\<close>

record tensor =
  shape :: "nat list"
  data :: "real list"

definition numel :: "nat list \<Rightarrow> nat" where
  "numel s = prod_list s"

definition valid :: "tensor \<Rightarrow> bool" where
  "valid t \<longleftrightarrow> length (data t) = numel (shape t)"

text \<open>\<open>chunks n d xs\<close>: the first \<open>d\<close> consecutive blocks of \<open>n\<close> entries of \<open>xs\<close>.\<close>

definition chunks :: "nat \<Rightarrow> nat \<Rightarrow> 'a list \<Rightarrow> 'a list list" where
  "chunks n d xs = map (\<lambda>i. take n (drop (i * n) xs)) [0..<d]"

subsection \<open>Elementwise operations\<close>

text \<open>
  \<^verbatim>\<open>t / c\<close> and \<^verbatim>\<open>t * c\<close> with a Python number \<open>c\<close>. (Division by zero gives
  infinities or NaN in torch and \<open>0\<close> here; no statement below divides by zero.)
\<close>

definition tdiv :: "tensor \<Rightarrow> real \<Rightarrow> tensor" where
  "tdiv t c = t\<lparr>data := map (\<lambda>x. x / c) (data t)\<rparr>"

definition tmul :: "tensor \<Rightarrow> real \<Rightarrow> tensor" where
  "tmul t c = t\<lparr>data := map (\<lambda>x. x * c) (data t)\<rparr>"

definition tmap :: "(real \<Rightarrow> real) \<Rightarrow> tensor \<Rightarrow> tensor" where
  "tmap f t = t\<lparr>data := map f (data t)\<rparr>"

definition clone :: "tensor \<Rightarrow> tensor" where
  "clone t = t"

definition detach :: "tensor \<Rightarrow> tensor" where
  "detach t = t"

definition zeros_like :: "tensor \<Rightarrow> tensor" where
  "zeros_like t = t\<lparr>data := replicate (length (data t)) 0\<rparr>"

definition sigmoid :: "real \<Rightarrow> real" where
  "sigmoid x = 1 / (1 + exp (- x))"

subsection \<open>Shape operations\<close>

text \<open>
  \<^verbatim>\<open>reshape\<close>: one size may be \<open>-1\<close> and is then inferred; the number of entries must
  not change.
\<close>

definition reshape :: "tensor \<Rightarrow> int list \<Rightarrow> error + tensor" where
  "reshape t dims =
     (if list_ex (\<lambda>d. d < - 1) dims then Inl RuntimeError
      else if count_list dims (- 1) = 0 then
        (if numel (map nat dims) = length (data t)
         then Inr (t\<lparr>shape := map nat dims\<rparr>) else Inl RuntimeError)
      else if count_list dims (- 1) = 1 then
        (let m = numel (map nat (filter (\<lambda>d. d \<noteq> - 1) dims))
         in if m \<noteq> 0 \<and> length (data t) mod m = 0
            then Inr (t\<lparr>shape := map (\<lambda>d. if d = - 1 then length (data t) div m else nat d) dims\<rparr>)
            else Inl RuntimeError)
      else Inl RuntimeError)"

definition unsqueeze :: "tensor \<Rightarrow> nat \<Rightarrow> error + tensor" where
  "unsqueeze t k =
     (if k > length (shape t) then Inl IndexError
      else Inr (t\<lparr>shape := take k (shape t) @ [1] @ drop k (shape t)\<rparr>))"

text \<open>
  \<^verbatim>\<open>repeat\<close>: along every dimension the tensor is tiled the given number of times;
  missing leading dimensions count as size one.
\<close>

fun repeat_data :: "nat list \<Rightarrow> nat list \<Rightarrow> 'a list \<Rightarrow> 'a list" where
  "repeat_data (d # ds) (r # rs) xs =
     concat (replicate r (concat (map (repeat_data ds rs) (chunks (numel ds) d xs))))"
| "repeat_data ds rs xs = xs"

definition repeat :: "tensor \<Rightarrow> nat list \<Rightarrow> error + tensor" where
  "repeat t reps =
     (if length reps < length (shape t) then Inl RuntimeError
      else let s = replicate (length reps - length (shape t)) 1 @ shape t
           in Inr \<lparr>shape = map2 (*) s reps, data = repeat_data s reps (data t)\<rparr>)"

text \<open>
  \<^verbatim>\<open>expand\<close>: a size of \<open>-1\<close> keeps the dimension (not allowed for a new leading
  dimension); otherwise the size must be the present one, or the present one is one.
\<close>

definition expand :: "tensor \<Rightarrow> int list \<Rightarrow> error + tensor" where
  "expand t sizes =
     (if length sizes < length (shape t) then Inl RuntimeError
      else let k = length sizes - length (shape t);
               s = replicate k 1 @ shape t
           in if list_ex (\<lambda>(i, d, z). z < - 1 \<or> (z = - 1 \<and> i < k) \<or> (z \<noteq> - 1 \<and> d \<noteq> 1 \<and> int d \<noteq> z))
                   (zip [0..<length sizes] (zip s sizes))
              then Inl RuntimeError
              else Inr \<lparr>shape = map2 (\<lambda>d z. if z = - 1 then d else nat z) s sizes,
                        data = repeat_data s
                                 (map2 (\<lambda>d z. if z = - 1 \<or> int d = z then 1 else nat z) s sizes)
                                 (data t)\<rparr>)"

text \<open>Broadcasting of two shapes, aligned at the last dimension.\<close>

definition broadcast_shapes :: "nat list \<Rightarrow> nat list \<Rightarrow> error + nat list" where
  "broadcast_shapes s1 s2 =
     (let n = max (length s1) (length s2);
          a = replicate (n - length s1) 1 @ s1;
          b = replicate (n - length s2) 1 @ s2
      in if list_all (\<lambda>(x, y). x = y \<or> x = 1 \<or> y = 1) (zip a b)
         then Inr (map2 (\<lambda>x y. if x = 1 then y else x) a b)
         else Inl RuntimeError)"

definition binop :: "(real \<Rightarrow> real \<Rightarrow> real) \<Rightarrow> tensor \<Rightarrow> tensor \<Rightarrow> error + tensor" where
  "binop f a b =
     ebind (broadcast_shapes (shape a) (shape b)) (\<lambda>s.
     ebind (expand a (map int s)) (\<lambda>a'.
     ebind (expand b (map int s)) (\<lambda>b'.
     Inr \<lparr>shape = s, data = map2 f (data a') (data b')\<rparr>)))"

definition tadd :: "tensor \<Rightarrow> tensor \<Rightarrow> error + tensor" where
  "tadd = binop (+)"

definition tsub :: "tensor \<Rightarrow> tensor \<Rightarrow> error + tensor" where
  "tsub = binop (-)"

text \<open>
  Indexing along dimension \<open>k\<close>: the entries before it form \<open>outer\<close> blocks, each of
  \<open>shape t ! k\<close> rows of \<open>inner\<close> entries. \<open>select t k i\<close> is \<^verbatim>\<open>t[:, i]\<close> (for \<open>k = 1\<close>),
  \<open>slice t k a b\<close> is \<^verbatim>\<open>t[:, a:b]\<close> with non-negative bounds, \<open>None\<close> an absent stop.
\<close>

definition select :: "tensor \<Rightarrow> nat \<Rightarrow> nat \<Rightarrow> error + tensor" where
  "select t k i =
     (if k \<ge> length (shape t) then Inl IndexError
      else if i \<ge> shape t ! k then Inl IndexError
      else let outer = numel (take k (shape t));
               mid = shape t ! k;
               inner = numel (drop (Suc k) (shape t))
           in Inr \<lparr>shape = take k (shape t) @ drop (Suc k) (shape t),
                     data = concat (map (\<lambda>blk. take inner (drop (i * inner) blk))
                                     (chunks (mid * inner) outer (data t)))\<rparr>)"

definition slice :: "tensor \<Rightarrow> nat \<Rightarrow> nat \<Rightarrow> nat option \<Rightarrow> error + tensor" where
  "slice t k start stop =
     (if k \<ge> length (shape t) then Inl IndexError
      else let outer = numel (take k (shape t));
               mid = shape t ! k;
               inner = numel (drop (Suc k) (shape t));
               lo = min start mid;
               hi = max lo (case stop of None \<Rightarrow> mid | Some e \<Rightarrow> min e mid)
           in Inr \<lparr>shape = (shape t)[k := hi - lo],
                     data = concat (map (\<lambda>blk. take ((hi - lo) * inner) (drop (lo * inner) blk))
                                     (chunks (mid * inner) outer (data t)))\<rparr>)"

text \<open>\<^verbatim>\<open>t[..., a:b]\<close>: the slice is taken along the last dimension.\<close>

definition slice_last :: "tensor \<Rightarrow> nat \<Rightarrow> nat option \<Rightarrow> error + tensor" where
  "slice_last t start stop =
     (if shape t = [] then Inl IndexError
      else slice t (length (shape t) - 1) start stop)"

text \<open>\<^verbatim>\<open>t[:, i] = v\<close> (for \<open>k = 1\<close>); \<open>v\<close> is broadcast to the shape of \<^verbatim>\<open>t[:, i]\<close>.\<close>

definition setitem_select :: "tensor \<Rightarrow> nat \<Rightarrow> nat \<Rightarrow> tensor \<Rightarrow> error + tensor" where
  "setitem_select t k i v =
     (if k \<ge> length (shape t) then Inl IndexError
      else if i \<ge> shape t ! k then Inl IndexError
      else let outer = numel (take k (shape t));
               mid = shape t ! k;
               inner = numel (drop (Suc k) (shape t))
           in ebind (expand v (map int (take k (shape t) @ drop (Suc k) (shape t)))) (\<lambda>v'.
              Inr (t\<lparr>data := concat (map2 (\<lambda>blk vb. take (i * inner) blk @ vb @ drop (Suc i * inner) blk)
                                      (chunks (mid * inner) outer (data t))
                                      (chunks inner outer (data v')))\<rparr>)))"

text \<open>
  \<^verbatim>\<open>torch.cat\<close> along dimension \<open>axis\<close> (negative: counted from the end). One-dimensional empty
  tensors are skipped; the others must agree in every other dimension.
\<close>

definition cat :: "tensor list \<Rightarrow> int \<Rightarrow> error + tensor" where
  "cat ts axis =
     (case ts of
        [] \<Rightarrow> Inl RuntimeError
      | t0 # _ \<Rightarrow>
          (case filter (\<lambda>t. shape t \<noteq> [0]) ts of
             [] \<Rightarrow> Inr t0
           | t1 # us \<Rightarrow>
               (let r = length (shape t1);
                    kd = (if axis < 0 then axis + int r else axis)
                in if kd < 0 \<or> kd \<ge> int r then Inl IndexError
                   else let k = nat kd;
                            outer = numel (take k (shape t1));
                            inner = numel (drop (Suc k) (shape t1))
                        in if list_ex (\<lambda>u. length (shape u) \<noteq> r
                                            \<or> take k (shape u) \<noteq> take k (shape t1)
                                            \<or> drop (Suc k) (shape u) \<noteq> drop (Suc k) (shape t1)) us
                           then Inl RuntimeError
                           else Inr \<lparr>shape = (shape t1)[k := sum_list (map (\<lambda>u. shape u ! k) (t1 # us))],
                                     data = concat (map (\<lambda>j. concat (map (\<lambda>u.
                                                       take (shape u ! k * inner)
                                                         (drop (j * (shape u ! k * inner)) (data u)))
                                                     (t1 # us)))
                                              [0..<outer])\<rparr>)))"

text \<open>
  \<^verbatim>\<open>permute\<close>: entry \<open>idx\<close> of the result is entry \<open>idx'\<close> of the argument, where
  \<open>idx' ! (dims ! i) = idx ! i\<close>. \<open>unravel\<close> and \<open>ravel\<close> convert between a row-major
  position and a multi-index.
\<close>

fun unravel :: "nat list \<Rightarrow> nat \<Rightarrow> nat list" where
  "unravel [] j = []"
| "unravel (d # ds) j = (j div numel ds) # unravel ds (j mod numel ds)"

fun ravel :: "nat list \<Rightarrow> nat list \<Rightarrow> nat" where
  "ravel (d # ds) (i # idx) = i * numel ds + ravel ds idx"
| "ravel ds idx = 0"

fun index_of :: "nat list \<Rightarrow> nat \<Rightarrow> nat" where
  "index_of [] k = 0"
| "index_of (d # ds) k = (if d = k then 0 else Suc (index_of ds k))"

definition permute :: "tensor \<Rightarrow> nat list \<Rightarrow> error + tensor" where
  "permute t dims =
     (let r = length (shape t)
      in if length dims \<noteq> r \<or> \<not> list_all (\<lambda>k. k \<in> set dims) [0..<r] then Inl RuntimeError
         else let s' = map (\<lambda>d. shape t ! d) dims
              in Inr \<lparr>shape = s',
                       data = map (\<lambda>j. data t ! ravel (shape t)
                                             (map (\<lambda>k. unravel s' j ! index_of dims k) [0..<r]))
                                [0..<numel s']\<rparr>)"

text \<open>The three \<^verbatim>\<open>einops.rearrange\<close> patterns of the source.\<close>

definition rearrange_b_n_c_to_bn_c :: "tensor \<Rightarrow> error + tensor" where
  "rearrange_b_n_c_to_bn_c t =
     (case shape t of
        [b, n, c] \<Rightarrow> Inr (t\<lparr>shape := [b * n, c]\<rparr>)
      | _ \<Rightarrow> Inl EinopsError)"

definition rearrange_bn_s_d_to_b_n_s_d :: "tensor \<Rightarrow> nat \<Rightarrow> error + tensor" where
  "rearrange_bn_s_d_to_b_n_s_d t b =
     (case shape t of
        [bn, s, d] \<Rightarrow>
          if b = 0 then Inl ZeroDivisionError
          else if bn mod b \<noteq> 0 then Inl EinopsError
          else Inr (t\<lparr>shape := [b, bn div b, s, d]\<rparr>)
      | _ \<Rightarrow> Inl EinopsError)"

definition rearrange_b_n_s_d_to_bn_s_d :: "tensor \<Rightarrow> nat \<Rightarrow> error + tensor" where
  "rearrange_b_n_s_d_to_bn_s_d t b =
     (case shape t of
        [b', n, s, d] \<Rightarrow>
          if b' \<noteq> b then Inl EinopsError
          else Inr (t\<lparr>shape := [b' * n, s, d]\<rparr>)
      | _ \<Rightarrow> Inl EinopsError)"

subsection \<open>Layers\<close>

text \<open>
  \<^verbatim>\<open>nn.Linear\<close>: \<open>weight o i\<close> is the entry of row \<open>o\<close>, column \<open>i\<close>. The layer acts on
  the last dimension.
\<close>

record linear =
  in_features :: nat
  out_features :: nat
  weight :: "nat \<Rightarrow> nat \<Rightarrow> real"
  bias :: "nat \<Rightarrow> real"

definition linear_apply :: "linear \<Rightarrow> tensor \<Rightarrow> error + tensor" where
  "linear_apply l t =
     (if shape t = [] then Inl RuntimeError
      else if last (shape t) \<noteq> in_features l then Inl RuntimeError
      else Inr \<lparr>shape = butlast (shape t) @ [out_features l],
                data = concat (map (\<lambda>row. map (\<lambda>j. (\<Sum>i\<leftarrow>[0..<in_features l]. row ! i * weight l j i)
                                                      + bias l j)
                                           [0..<out_features l])
                                (chunks (in_features l) (numel (butlast (shape t))) (data t)))\<rparr>)"

text \<open>
  \<^verbatim>\<open>nn.GroupNorm\<close> with its per-channel affine parameters. The input has shape
  \<open>(n, c, ...)\<close>; the channels of one sample are split into \<open>num_groups\<close> groups, and each
  group is normalised by its own mean and (biased) variance.
\<close>

record group_norm =
  num_groups :: nat
  num_channels :: nat
  eps :: real
  gn_weight :: "nat \<Rightarrow> real"
  gn_bias :: "nat \<Rightarrow> real"

definition mean :: "real list \<Rightarrow> real" where
  "mean xs = sum_list xs / real (length xs)"

definition variance :: "real list \<Rightarrow> real" where
  "variance xs = sum_list (map (\<lambda>x. (x - mean xs) ^ 2) xs) / real (length xs)"

definition group_norm_apply :: "group_norm \<Rightarrow> tensor \<Rightarrow> error + tensor" where
  "group_norm_apply g t =
     (if length (shape t) < 2 then Inl RuntimeError
      else if num_groups g = 0 \<or> shape t ! 1 \<noteq> num_channels g
              \<or> num_channels g mod num_groups g \<noteq> 0 then Inl RuntimeError
      else let n = shape t ! 0;
               c = shape t ! 1;
               inner = numel (drop 2 (shape t));
               cg = c div num_groups g
           in Inr (t\<lparr>data :=
                concat (map (\<lambda>sample.
                  concat (map (\<lambda>(gi, grp).
                    map (\<lambda>(e, x). (x - mean grp) / sqrt (variance grp + eps g)
                                      * gn_weight g (gi * cg + e div inner)
                                    + gn_bias g (gi * cg + e div inner))
                        (zip [0..<cg * inner] grp))
                    (zip [0..<num_groups g] (chunks (cg * inner) (num_groups g) sample))))
                  (chunks (c * inner) n (data t)))\<rparr>))"

text \<open>\<^verbatim>\<open>nn.Sequential(nn.Linear(...), nn.GELU())\<close>: the layer, then the activation.\<close>

definition sequential_apply :: "linear \<times> (real \<Rightarrow> real) \<Rightarrow> tensor \<Rightarrow> error + tensor" where
  "sequential_apply m t = ebind (linear_apply (fst m) t) (\<lambda>y. Inr (tmap (snd m) y))"

section \<open>Construction\<close>

text \<open>\<^verbatim>\<open>cfg\<close>: only \<^verbatim>\<open>cfg.MODEL.TRACK.efficient_corr\<close> is read.\<close>

record cfg =
  MODEL_TRACK_efficient_corr :: bool

text \<open>
  What the update transformer is built from (the keyword arguments of the
  constructor call).
\<close>

record updateformer_args =
  space_depth :: int
  time_depth :: int
  input_dim :: int
  uf_hidden_size :: int
  output_dim :: int
  mlp_ratio :: real
  add_space_attn :: bool

text \<open>
  A correlation block, once built from the feature maps: the dense one is given the
  track features by \<^verbatim>\<open>corr\<close> and is then sampled at the coordinates; the efficient one is
  sampled at the coordinates and the track features at once.
\<close>

datatype corr_fn =
  Dense "tensor \<Rightarrow> error + (tensor \<Rightarrow> error + tensor)"
  | Efficient "tensor \<Rightarrow> tensor \<Rightarrow> error + tensor"

text \<open>
  The collaborators that \<^verbatim>\<open>base_track_predictor.py\<close> imports from \<^verbatim>\<open>.blocks\<close>,
  \<^verbatim>\<open>..utils\<close> and \<^verbatim>\<open>torch.nn\<close> are parameters of the model, together with the learned
  weights of the layers the constructor creates. Each may raise.
\<close>

record env =
  sample_features4d :: "tensor \<Rightarrow> tensor \<Rightarrow> error + tensor"
  get_2d_embedding :: "tensor \<Rightarrow> int \<Rightarrow> bool \<Rightarrow> error + tensor"
  get_2d_sincos_pos_embed :: "int \<Rightarrow> nat \<times> nat \<Rightarrow> error + tensor"
  EfficientUpdateFormer :: "updateformer_args \<Rightarrow> error + (tensor \<Rightarrow> error + tensor)"
  CorrBlock :: "tensor \<Rightarrow> int \<Rightarrow> int \<Rightarrow> error + (tensor \<Rightarrow> error + (tensor \<Rightarrow> error + tensor))"
  EfficientCorrBlock :: "tensor \<Rightarrow> int \<Rightarrow> int \<Rightarrow> error + (tensor \<Rightarrow> tensor \<Rightarrow> error + tensor)"
  GELU :: "real \<Rightarrow> real"
  norm_weight :: "nat \<Rightarrow> real"
  norm_bias :: "nat \<Rightarrow> real"
  ffeat_weight :: "nat \<Rightarrow> nat \<Rightarrow> real"
  ffeat_bias :: "nat \<Rightarrow> real"
  vis_weight :: "nat \<Rightarrow> nat \<Rightarrow> real"
  vis_bias :: "nat \<Rightarrow> real"

text \<open>The attributes of a \<^verbatim>\<open>BaseTrackerPredictor\<close>.\<close>

record predictor =
  stride :: real
  latent_dim :: int
  corr_levels :: int
  corr_radius :: int
  hidden_size :: int
  fine :: bool
  flows_emb_dim :: int
  transformer_dim :: int
  efficient_corr :: bool
  updateformer :: "tensor \<Rightarrow> error + tensor"
  norm_gn :: group_norm
  ffeat_updater :: "linear \<times> (real \<Rightarrow> real)"
  vis_predictor :: "linear option"

text \<open>Lines 45 to 53: the width of the update transformer's input.\<close>

definition init_transformer_dim :: "int \<Rightarrow> int \<Rightarrow> int \<Rightarrow> bool \<Rightarrow> int" where
  "init_transformer_dim corr_levels' corr_radius' latent_dim' fine' =
     (let td = corr_levels' * (corr_radius' * 2 + 1) ^ 2 + latent_dim' * 2
      in if fine' then td + (if td mod 2 = 0 then 4 else 5)
         else td + (4 - td mod 4) mod 4)"

text \<open>
  \<^verbatim>\<open>__init__\<close>. \<^verbatim>\<open>cfg\<close> defaults to \<^verbatim>\<open>None\<close>, whose attribute access raises; the layers
  cannot be created with a negative number of features. The visibility head exists
  only when \<^verbatim>\<open>fine\<close> is false.
\<close>

definition init ::
  "env \<Rightarrow> real \<Rightarrow> int \<Rightarrow> int \<Rightarrow> int \<Rightarrow> int \<Rightarrow> bool \<Rightarrow> int \<Rightarrow> bool \<Rightarrow> cfg option
     \<Rightarrow> error + predictor" where
  "init E stride' corr_levels' corr_radius' latent_dim' hidden_size' use_spaceatt depth fine' cfg' =
     (let flows_emb_dim' = latent_dim' div 2;
          transformer_dim' = init_transformer_dim corr_levels' corr_radius' latent_dim' fine'
      in case cfg' of
           None \<Rightarrow> Inl AttributeError
         | Some c \<Rightarrow>
             ebind (EfficientUpdateFormer E
                      \<lparr>space_depth = (if use_spaceatt then depth else 0),
                       time_depth = depth,
                       input_dim = transformer_dim',
                       uf_hidden_size = hidden_size',
                       output_dim = latent_dim' + 2,
                       mlp_ratio = 4,
                       add_space_attn = use_spaceatt\<rparr>)
               (\<lambda>uf.
                  if latent_dim' < 0 then Inl RuntimeError
                  else Inr
                    \<lparr>stride = stride',
                     latent_dim = latent_dim',
                     corr_levels = corr_levels',
                     corr_radius = corr_radius',
                     hidden_size = hidden_size',
                     fine = fine',
                     flows_emb_dim = flows_emb_dim',
                     transformer_dim = transformer_dim',
                     efficient_corr = MODEL_TRACK_efficient_corr c,
                     updateformer = uf,
                     norm_gn = \<lparr>num_groups = 1, num_channels = nat latent_dim', eps = 1 / 100000,
                              gn_weight = norm_weight E, gn_bias = norm_bias E\<rparr>,
                     ffeat_updater = (\<lparr>in_features = nat latent_dim', out_features = nat latent_dim',
                                        weight = ffeat_weight E, bias = ffeat_bias E\<rparr>, GELU E),
                     vis_predictor =
                       (if \<not> fine' then
                          Some \<lparr>in_features = nat latent_dim', out_features = 1,
                                weight = vis_weight E, bias = vis_bias E\<rparr>
                        else None)\<rparr>))"

section \<open>The forward pass\<close>

text \<open>
  A variable that the source writes with a trailing underscore (\<^verbatim>\<open>track_feats_\<close>) has
  the suffix \<open>_u\<close> here.
\<close>

text \<open>
  The variables \<^verbatim>\<open>forward\<close> binds before its loop and never reassigns
  (\<open>nB\<close>, \<open>nN\<close>, \<open>nS\<close>, \<open>nHH\<close>, \<open>nWW\<close> are \<^verbatim>\<open>B\<close>, \<^verbatim>\<open>N\<close>, \<^verbatim>\<open>S\<close>, \<^verbatim>\<open>HH\<close>, \<^verbatim>\<open>WW\<close>), and
  the ones the loop reassigns.
\<close>

record locals =
  nB :: nat
  nN :: nat
  nS :: nat
  nHH :: nat
  nWW :: nat
  down_ratio :: real
  query_track_feat :: tensor
  coords_backup :: tensor
  fcorr_fn :: corr_fn

record state =
  coords :: tensor
  track_feats :: tensor
  coord_preds :: "tensor list"

datatype forward_result =
  Preds "tensor list" "tensor option"
  | PredsFeats "tensor list" "tensor option" tensor tensor

text \<open>
  Lines 82 to 85: the two tuple assignments raise when the number of dimensions is not
  three and five (\<^verbatim>\<open>fmaps\<close> defaults to \<^verbatim>\<open>None\<close>, which has no shape); \<^verbatim>\<open>B\<close> is the one of
  \<^verbatim>\<open>fmaps\<close>. The result is \<open>(B, N, S, C, HH, WW)\<close> and the feature maps.
\<close>

definition forward_entry ::
  "tensor \<Rightarrow> tensor option \<Rightarrow> error + (nat \<times> nat \<times> nat \<times> nat \<times> nat \<times> nat) \<times> tensor" where
  "forward_entry query_points fmaps =
     (case shape query_points of
        [B0, N, D] \<Rightarrow>
          (case fmaps of
             None \<Rightarrow> Inl AttributeError
           | Some fm \<Rightarrow>
               (case shape fm of
                  [B, S, C, HH, WW] \<Rightarrow>
                    if D = 2 then Inr ((B, N, S, C, HH, WW), fm) else Inl AssertionError
                | _ \<Rightarrow> Inl ValueError))
      | _ \<Rightarrow> Inl ValueError)"

text \<open>Lines 91 to 93: both divisions are in the body of the \<^verbatim>\<open>if\<close>.\<close>

definition scale_query_points :: "predictor \<Rightarrow> real \<Rightarrow> tensor \<Rightarrow> tensor" where
  "scale_query_points p down_ratio' query_points =
     (if down_ratio' > 1 then tdiv (tdiv query_points down_ratio') (stride p)
      else query_points)"

text \<open>Lines 184 to 187.\<close>

definition rescale_coords :: "predictor \<Rightarrow> real \<Rightarrow> tensor \<Rightarrow> tensor" where
  "rescale_coords p down_ratio' c =
     (if down_ratio' > 1 then tmul (tmul c (stride p)) down_ratio'
      else tmul c (stride p))"

text \<open>Lines 82 to 111: everything before the loop.\<close>

definition forward_init ::
  "predictor \<Rightarrow> env \<Rightarrow> tensor \<Rightarrow> tensor option \<Rightarrow> real \<Rightarrow> error + locals \<times> state" where
  "forward_init p E query_points fmaps down_ratio' =
     ebind (forward_entry query_points fmaps) (\<lambda>((B, N, S, C, HH, WW), fm).
     let query_points' = scale_query_points p down_ratio' query_points in
     ebind (reshape (clone query_points') [int B, 1, int N, 2]) (\<lambda>c1.
     ebind (repeat c1 [1, S, 1, 1]) (\<lambda>coords'.
     ebind (select fm 1 0) (\<lambda>fmaps0.
     ebind (select coords' 1 0) (\<lambda>coords0.
     ebind (sample_features4d E fmaps0 coords0) (\<lambda>query_track_feat'.
     ebind (unsqueeze query_track_feat' 1) (\<lambda>q1.
     ebind (repeat q1 [1, S, 1, 1]) (\<lambda>track_feats'.
     ebind (if efficient_corr p
            then map_sum id Efficient (EfficientCorrBlock E fm (corr_levels p) (corr_radius p))
            else map_sum id Dense (CorrBlock E fm (corr_levels p) (corr_radius p))) (\<lambda>fcorr_fn'.
     Inr (\<lparr>nB = B, nN = N, nS = S, nHH = HH, nWW = WW, down_ratio = down_ratio',
           query_track_feat = query_track_feat', coords_backup = clone coords',
           fcorr_fn = fcorr_fn'\<rparr>,
          \<lparr>coords = coords', track_feats = track_feats', coord_preds = []\<rparr>))))))))))"

text \<open>\<^verbatim>\<open>t.shape[k]\<close>.\<close>

definition shape_at :: "tensor \<Rightarrow> nat \<Rightarrow> error + nat" where
  "shape_at t k = (if k < length (shape t) then Inr (shape t ! k) else Inl IndexError)"

text \<open>
  Lines 121 to 143: the correlation, the flow embedding and the concatenated input.
  The result is \<^verbatim>\<open>flows_emb\<close>, \<^verbatim>\<open>track_feats_\<close> and \<^verbatim>\<open>transformer_input\<close>.
\<close>

definition concat_input ::
  "predictor \<Rightarrow> env \<Rightarrow> locals \<Rightarrow> tensor \<Rightarrow> tensor \<Rightarrow> error + tensor \<times> tensor \<times> tensor" where
  "concat_input p E L coords' track_feats' =
     ebind (case fcorr_fn L of
              Efficient sample \<Rightarrow> sample coords' track_feats'
            | Dense corr \<Rightarrow> ebind (corr track_feats') (\<lambda>sample. sample coords')) (\<lambda>fcorrs.
     ebind (shape_at fcorrs 3) (\<lambda>corrdim.
     ebind (permute fcorrs [0, 2, 1, 3]) (\<lambda>fcorrs_p.
     ebind (reshape fcorrs_p [int (nB L * nN L), int (nS L), int corrdim]) (\<lambda>fcorrs_u.
     ebind (slice coords' 1 0 (Some 1)) (\<lambda>coords01.
     ebind (tsub coords' coords01) (\<lambda>diff.
     ebind (permute diff [0, 2, 1, 3]) (\<lambda>diff_p.
     ebind (reshape diff_p [int (nB L * nN L), int (nS L), 2]) (\<lambda>flows.
     ebind (get_2d_embedding E flows (flows_emb_dim p) False) (\<lambda>flows_emb0.
     ebind (cat [flows_emb0, flows] (- 1)) (\<lambda>flows_emb.
     ebind (permute track_feats' [0, 2, 1, 3]) (\<lambda>track_feats_p.
     ebind (reshape track_feats_p [int (nB L * nN L), int (nS L), latent_dim p]) (\<lambda>track_feats_u.
     ebind (cat [flows_emb, fcorrs_u, track_feats_u] 2) (\<lambda>transformer_input.
     Inr (flows_emb, track_feats_u, transformer_input))))))))))))))"

text \<open>Lines 145 to 149: the padding of the concatenated input.\<close>

definition pad_input :: "predictor \<Rightarrow> tensor \<Rightarrow> tensor \<Rightarrow> error + tensor" where
  "pad_input p flows_emb transformer_input =
     ebind (shape_at transformer_input 2) (\<lambda>w.
     if int w < transformer_dim p then
       (let pad_dim = transformer_dim p - int w in
        ebind (slice_last flows_emb 0 (Some (nat pad_dim))) (\<lambda>sl.
        cat [transformer_input, zeros_like sl] 2))
     else Inr transformer_input)"

text \<open>Lines 151 to 160: the positional embedding, and the input of the transformer.\<close>

definition add_pos_embed ::
  "predictor \<Rightarrow> env \<Rightarrow> locals \<Rightarrow> tensor \<Rightarrow> tensor \<Rightarrow> error + tensor" where
  "add_pos_embed p E L coords' transformer_input =
     ebind (get_2d_sincos_pos_embed E (transformer_dim p) (nHH L, nWW L)) (\<lambda>pos_embed.
     ebind (expand pos_embed [int (nB L), - 1, - 1, - 1]) (\<lambda>pos_embed_b.
     ebind (select coords' 1 0) (\<lambda>coords0.
     ebind (sample_features4d E pos_embed_b coords0) (\<lambda>sampled.
     ebind (rearrange_b_n_c_to_bn_c sampled) (\<lambda>sampled_r.
     ebind (unsqueeze sampled_r 1) (\<lambda>sampled_pos_emb.
     ebind (tadd transformer_input sampled_pos_emb) (\<lambda>x.
     rearrange_bn_s_d_to_b_n_s_d x (nB L))))))))"

text \<open>Lines 169 to 174: the residual update of the track features.\<close>

definition update_track_feats ::
  "predictor \<Rightarrow> locals \<Rightarrow> tensor \<Rightarrow> tensor \<Rightarrow> error + tensor" where
  "update_track_feats p L track_feats_u delta_feats_u =
     ebind (reshape track_feats_u [int (nB L * nN L * nS L), latent_dim p]) (\<lambda>track_feats_2.
     ebind (reshape delta_feats_u [int (nB L * nN L * nS L), latent_dim p]) (\<lambda>delta_feats_2.
     ebind (group_norm_apply (norm_gn p) delta_feats_2) (\<lambda>normed.
     ebind (sequential_apply (ffeat_updater p) normed) (\<lambda>upd.
     ebind (tadd upd track_feats_2) (\<lambda>track_feats_3.
     ebind (reshape track_feats_3 [int (nB L), int (nN L), int (nS L), latent_dim p]) (\<lambda>tf4.
     permute tf4 [0, 2, 1, 3]))))))"

text \<open>Lines 177 to 181: the update of the coordinates and the reset of frame 0.\<close>

definition update_coords :: "locals \<Rightarrow> tensor \<Rightarrow> tensor \<Rightarrow> error + tensor" where
  "update_coords L coords' delta_coords_u =
     ebind (reshape delta_coords_u [int (nB L), int (nN L), int (nS L), 2]) (\<lambda>dc4.
     ebind (permute dc4 [0, 2, 1, 3]) (\<lambda>dc.
     ebind (tadd coords' dc) (\<lambda>coords2.
     ebind (select (coords_backup L) 1 0) (\<lambda>backup0.
     setitem_select coords2 1 0 backup0))))"

text \<open>Lines 117 to 187: one iteration of the loop.\<close>

definition refine_iter :: "predictor \<Rightarrow> env \<Rightarrow> locals \<Rightarrow> state \<Rightarrow> error + state" where
  "refine_iter p E L st =
     (let coords' = detach (coords st) in
      ebind (concat_input p E L coords' (track_feats st)) (\<lambda>(flows_emb, track_feats_u, transformer_input).
      ebind (pad_input p flows_emb transformer_input) (\<lambda>transformer_input'.
      ebind (add_pos_embed p E L coords' transformer_input') (\<lambda>x.
      ebind (updateformer p x) (\<lambda>delta4.
      ebind (rearrange_b_n_s_d_to_bn_s_d delta4 (nB L)) (\<lambda>delta.
      ebind (slice delta 2 0 (Some 2)) (\<lambda>delta_coords_u.
      ebind (slice delta 2 2 None) (\<lambda>delta_feats_u.
      ebind (update_track_feats p L track_feats_u delta_feats_u) (\<lambda>track_feats'.
      ebind (update_coords L coords' delta_coords_u) (\<lambda>coords''.
      Inr \<lparr>coords = coords'', track_feats = track_feats',
           coord_preds = coord_preds st @ [rescale_coords p (down_ratio L) coords'']\<rparr>))))))))))"

text \<open>\<^verbatim>\<open>for itr in range(iters)\<close>, run \<open>n\<close> times.\<close>

fun refine_loop :: "predictor \<Rightarrow> env \<Rightarrow> locals \<Rightarrow> nat \<Rightarrow> state \<Rightarrow> error + state" where
  "refine_loop p E L 0 st = Inr st"
| "refine_loop p E L (Suc n) st = ebind (refine_iter p E L st) (refine_loop p E L n)"

text \<open>Lines 190 to 194: the visibility, absent with \<^verbatim>\<open>fine\<close>.\<close>

definition predict_vis :: "predictor \<Rightarrow> locals \<Rightarrow> tensor \<Rightarrow> error + tensor option" where
  "predict_vis p L track_feats' =
     (if \<not> fine p then
        (case vis_predictor p of
           None \<Rightarrow> Inl AttributeError
         | Some l \<Rightarrow>
             ebind (reshape track_feats' [int (nB L * nS L * nN L), latent_dim p]) (\<lambda>tf2.
             ebind (linear_apply l tf2) (\<lambda>v.
             ebind (reshape v [int (nB L), int (nS L), int (nN L)]) (\<lambda>vis_e.
             Inr (Some (tmap sigmoid vis_e))))))
      else Inr None)"

text \<open>\<^verbatim>\<open>forward\<close>; \<^verbatim>\<open>range(iters)\<close> is empty for \<^verbatim>\<open>iters\<close> below one.\<close>

definition forward ::
  "predictor \<Rightarrow> env \<Rightarrow> tensor \<Rightarrow> tensor option \<Rightarrow> int \<Rightarrow> bool \<Rightarrow> real \<Rightarrow> error + forward_result" where
  "forward p E query_points fmaps iters return_feat down_ratio' =
     ebind (forward_init p E query_points fmaps down_ratio') (\<lambda>(L, st0).
     ebind (refine_loop p E L (nat iters) st0) (\<lambda>st.
     ebind (predict_vis p L (track_feats st)) (\<lambda>vis_e.
     if return_feat
     then Inr (PredsFeats (coord_preds st) vis_e (track_feats st) (query_track_feat L))
     else Inr (Preds (coord_preds st) vis_e))))"

section \<open>Fixtures\<close>

text \<open>
  Stand-ins for the collaborators, used to run the model on concrete inputs: every
  one returns a tensor of the shape its caller expects, filled with zeros. The flow
  embedding has \<open>C\<close> channels, the dimension the specification gives for it. The update
  transformer answers with a delta of one in every channel.
\<close>

definition const_tensor :: "nat list \<Rightarrow> real \<Rightarrow> tensor" where
  "const_tensor s c = \<lparr>shape = s, data = replicate (numel s) c\<rparr>"

definition stub_env :: env where
  "stub_env =
     \<lparr>sample_features4d = (\<lambda>fm co. Inr (const_tensor [shape co ! 0, shape co ! 1, shape fm ! 1] 0)),
      get_2d_embedding = (\<lambda>xy C cat_coords. Inr (const_tensor [shape xy ! 0, shape xy ! 1, nat C] 0)),
      get_2d_sincos_pos_embed = (\<lambda>D (h, w). Inr (const_tensor [1, nat D, h, w] 0)),
      EfficientUpdateFormer =
        (\<lambda>a. Inr (\<lambda>x. Inr (const_tensor (take 3 (shape x) @ [nat (output_dim a)]) 1))),
      CorrBlock =
        (\<lambda>fm l r. Inr (\<lambda>tf. Inr (\<lambda>co.
           Inr (const_tensor (take 3 (shape co) @ [nat (l * (r * 2 + 1) ^ 2)]) 0)))),
      EfficientCorrBlock =
        (\<lambda>fm l r. Inr (\<lambda>co tf.
           Inr (const_tensor (take 3 (shape co) @ [nat (l * (r * 2 + 1) ^ 2)]) 0))),
      GELU = (\<lambda>x. x),
      norm_weight = (\<lambda>c. 1),
      norm_bias = (\<lambda>c. 0),
      ffeat_weight = (\<lambda>o' i. if o' = i then 1 else 0),
      ffeat_bias = (\<lambda>o'. 0),
      vis_weight = (\<lambda>o' i. 1),
      vis_bias = (\<lambda>o'. 0)\<rparr>"

text \<open>
  The example of the specification: one batch, two frames, one track, the query point
  at pixel \<open>(40, 40)\<close>, stride four, feature maps of shape \<open>(1, 2, 2, 8, 8)\<close>. The predictor
  is the one \<open>init\<close> builds from \<open>stub_env\<close> with one correlation level of radius zero and
  a latent dimension of two (see \<open>init_demo_predictor\<close> below).
\<close>

definition demo_predictor :: predictor where
  "demo_predictor =
     \<lparr>stride = 4, latent_dim = 2, corr_levels = 1, corr_radius = 0, hidden_size = 384,
      fine = False, flows_emb_dim = 1, transformer_dim = 8, efficient_corr = False,
      updateformer = (\<lambda>x. Inr (const_tensor (take 3 (shape x) @ [nat 4]) 1)),
      norm_gn = \<lparr>num_groups = 1, num_channels = 2, eps = 1 / 100000,
                 gn_weight = (\<lambda>c. 1), gn_bias = (\<lambda>c. 0)\<rparr>,
      ffeat_updater = (\<lparr>in_features = 2, out_features = 2,
                         weight = (\<lambda>o' i. if o' = i then 1 else 0), bias = (\<lambda>o'. 0)\<rparr>,
                       \<lambda>x. x),
      vis_predictor = Some \<lparr>in_features = 2, out_features = 1,
                            weight = (\<lambda>o' i. 1), bias = (\<lambda>o'. 0)\<rparr>\<rparr>"


definition demo_query :: tensor where
  "demo_query = \<lparr>shape = [1, 1, 2], data = [40, 40]\<rparr>"

definition demo_fmaps :: tensor where
  "demo_fmaps = const_tensor [1, 2, 2, 8, 8] 0"

text \<open>The variables of \<^verbatim>\<open>forward\<close> on this example when its loop starts.\<close>

definition demo_locals :: locals where
  "demo_locals =
     \<lparr>nB = 1, nN = 1, nS = 2, nHH = 8, nWW = 8, down_ratio = 1,
      query_track_feat = \<lparr>shape = [1, 1, 2], data = [0, 0]\<rparr>,
      coords_backup = \<lparr>shape = [1, 2, 1, 2], data = [40, 40, 40, 40]\<rparr>,
      fcorr_fn = Dense (\<lambda>tf. Inr (\<lambda>co. Inr (const_tensor (take 3 (shape co) @ [1]) 0)))\<rparr>"

text \<open>What \<^verbatim>\<open>forward\<close> returns: the predictions and the visibility.\<close>

fun result_preds :: "forward_result \<Rightarrow> tensor list" where
  "result_preds (Preds ps v) = ps"
| "result_preds (PredsFeats ps v tf qf) = ps"

fun result_vis :: "forward_result \<Rightarrow> tensor option" where
  "result_vis (Preds ps v) = v"
| "result_vis (PredsFeats ps v tf qf) = v"

section \<open>Facts about the tensor operations\<close>

lemma ebind_Inr_iff: "ebind m f = Inr y \<longleftrightarrow> (\<exists>x. m = Inr x \<and> f x = Inr y)"
  by (cases m) (simp_all add: ebind_def)

lemma ebind_Inr [simp]: "ebind (Inr x) f = f x"
  by (simp add: ebind_def)

lemma ebind_Inl [simp]: "ebind (Inl e) f = Inl e"
  by (simp add: ebind_def)

lemma length_chunks [simp]: "length (chunks n d xs) = d"
  by (simp add: chunks_def)

lemma nth_chunks: "i < d \<Longrightarrow> chunks n d xs ! i = take n (drop (i * n) xs)"
  by (simp add: chunks_def)

lemma chunks_Suc: "chunks n (Suc d) xs = take n xs # chunks n d (drop n xs)"
proof -
  have "[0..<Suc d] = 0 # map Suc [0..<d]"
    by (simp add: upt_conv_Cons map_Suc_upt del: upt_Suc)
  then show ?thesis
    by (simp add: chunks_def comp_def add.commute del: upt_Suc)
qed

lemma chunks_0 [simp]: "chunks n 0 xs = []"
  by (simp add: chunks_def)

lemma chunks_concat:
  "\<forall>b \<in> set bs. length b = m \<Longrightarrow> chunks m (length bs) (concat bs @ rest) = bs"
  by (induction bs) (simp_all add: chunks_Suc)

lemma chunks_concat':
  "\<forall>b \<in> set bs. length b = m \<Longrightarrow> d = length bs \<Longrightarrow> chunks m d (concat bs) = bs"
  using chunks_concat [of bs m "[]"] by simp

lemma concat_chunks: "length xs = d * n \<Longrightarrow> concat (chunks n d xs) = xs"
proof (induction d arbitrary: xs)
  case 0 then show ?case by simp
next
  case (Suc d)
  then show ?case by (simp add: chunks_Suc)
qed

lemma length_chunk:
  assumes "c \<in> set (chunks n d xs)" and "d * n \<le> length xs"
  shows "length c = n"
proof -
  from assms(1) obtain i where i: "i < d" and c: "c = take n (drop (i * n) xs)"
    by (auto simp: chunks_def)
  have "Suc i * n \<le> d * n"
    using i by (intro mult_le_mono1) simp
  then have "i * n + n \<le> length xs"
    using assms(2) by simp
  then show ?thesis
    by (simp add: c)
qed

lemma length_concat_const:
  "\<forall>x \<in> set xs. length (f x) = m \<Longrightarrow> length (concat (map f xs)) = length xs * m"
  by (induction xs) simp_all

lemma numel_Nil [simp]: "numel [] = 1"
  by (simp add: numel_def)

lemma numel_Cons [simp]: "numel (d # ds) = d * numel ds"
  by (simp add: numel_def)

lemma numel_replicate_one [simp]: "numel (replicate k (Suc 0)) = Suc 0"
  by (induction k) simp_all

lemma numel_append [simp]: "numel (xs @ ys) = numel xs * numel ys"
  by (simp add: numel_def)

lemma repeat_data_ones:
  "length xs = numel ds \<Longrightarrow> \<forall>r \<in> set rs. r = 1 \<Longrightarrow> repeat_data ds rs xs = xs"
proof (induction ds rs xs rule: repeat_data.induct)
  case (1 d ds r rs xs)
  have "map (repeat_data ds rs) (chunks (numel ds) d xs) = chunks (numel ds) d xs"
    using 1 by (intro map_idI) (auto simp: length_chunk)
  then show ?case using 1 by (simp add: concat_chunks)
qed simp_all

lemma length_repeat_data:
  "length xs = numel ds \<Longrightarrow> length ds = length rs \<Longrightarrow>
   length (repeat_data ds rs xs) = numel (map2 (*) ds rs)"
proof (induction ds rs xs rule: repeat_data.induct)
  case (1 d ds r rs xs)
  have "\<forall>c \<in> set (chunks (numel ds) d xs). length (repeat_data ds rs c) = numel (map2 (*) ds rs)"
    using 1 by (auto simp: length_chunk)
  then have "length (concat (map (repeat_data ds rs) (chunks (numel ds) d xs))) = d * numel (map2 (*) ds rs)"
    using length_concat_const [of "chunks (numel ds) d xs" "repeat_data ds rs"] by simp
  then show ?case
    by (simp add: length_concat sum_list_replicate del: length_concat) (simp add: length_concat sum_list_replicate mult_ac)
qed simp_all

lemma count_list_0_iff: "count_list xs x = 0 \<longleftrightarrow> x \<notin> set xs"
  by (induction xs) auto

lemma reshape_nonneg:
  assumes "\<forall>d \<in> set dims. 0 \<le> d"
  shows "reshape t dims =
           (if numel (map nat dims) = length (data t)
            then Inr (t\<lparr>shape := map nat dims\<rparr>) else Inl RuntimeError)"
proof -
  have a: "\<not> list_ex (\<lambda>d. d < - 1) dims"
    using assms by (auto simp: list_ex_iff)
  have b: "count_list dims (- 1) = 0"
    using assms by (auto simp: count_list_0_iff)
  show ?thesis
    unfolding reshape_def using a b by simp
qed

lemma reshape_valid:
  "reshape t dims = Inr t' \<Longrightarrow> \<forall>d \<in> set dims. 0 \<le> d \<Longrightarrow>
   valid t' \<and> shape t' = map nat dims \<and> data t' = data t"
  by (auto simp: reshape_nonneg valid_def split: if_splits)

lemma repeat_valid:
  assumes "valid t" "repeat t reps = Inr t'"
  shows "valid t'"
proof -
  let ?s = "replicate (length reps - length (shape t)) 1 @ shape t"
  from assms(2) have le: "length (shape t) \<le> length reps"
    and t': "t' = \<lparr>shape = map2 (*) ?s reps, data = repeat_data ?s reps (data t)\<rparr>"
    by (auto simp: repeat_def Let_def split: if_splits)
  have "numel ?s = numel (shape t)"
    by simp
  then have "length (data t) = numel ?s"
    using assms(1) by (simp add: valid_def)
  moreover have "length ?s = length reps"
    using le by simp
  ultimately show ?thesis
    unfolding t' valid_def by (simp add: length_repeat_data)
qed

lemma repeat_dim1:
  assumes "length xs = b * (n * d)"
  shows "repeat_data [b, 1, n, d] [1, s, 1, 1] xs
           = concat (map (\<lambda>blk. concat (replicate s blk)) (chunks (n * d) b xs))"
proof -
  have inner: "repeat_data [n, d] [1, 1] c = c" if "length c = n * d" for c
    using that by (intro repeat_data_ones) simp_all
  have blk: "repeat_data [1, n, d] [s, 1, 1] c = concat (replicate s c)"
    if "length c = n * d" for c
    using that inner [of c] by (simp add: chunks_Suc)
  have m: "map (repeat_data [1, n, d] [s, 1, 1]) (chunks (n * d) b xs)
          = map (\<lambda>blk. concat (replicate s blk)) (chunks (n * d) b xs)"
    using assms by (intro map_cong refl blk) (simp add: length_chunk)
  have "repeat_data [b, 1, n, d] [1, s, 1, 1] xs
      = concat (replicate 1 (concat (map (repeat_data [1, n, d] [s, 1, 1])
                                       (chunks (numel [1, n, d]) b xs))))"
    by (simp only: repeat_data.simps)
  also have "numel [1, n, d] = n * d"
    by simp
  also note m
  finally show ?thesis
    by simp
qed

lemma length_concat_replicate: "length (concat (replicate s c)) = s * length c"
  by (induction s) simp_all

lemma select_dim1_repeat:
  assumes "length xs = b * m" "0 < s"
  shows "concat (map (\<lambda>blk. take m (drop (0 * m) blk))
            (chunks (s * m) b (concat (map (\<lambda>blk. concat (replicate s blk)) (chunks m b xs)))))
         = xs"
proof -
  let ?bs = "map (\<lambda>blk. concat (replicate s blk)) (chunks m b xs)"
  have len: "\<forall>c \<in> set ?bs. length c = s * m"
    using assms(1) by (auto simp: length_concat_replicate length_chunk)
  have "chunks (s * m) b (concat ?bs) = ?bs"
    using len by (intro chunks_concat') simp_all
  moreover have tk: "take m (concat (replicate s c)) = c" if "length c = m" for c :: "'a list"
  proof -
    obtain s' where "s = Suc s'" using assms(2) by (cases s) auto
    then show ?thesis using that by simp
  qed
  have "map (\<lambda>blk. take m (drop (0 * m) blk)) ?bs = map (\<lambda>blk. blk) (chunks m b xs)"
    unfolding map_map comp_def using assms(1)
    by (intro map_cong refl) (simp add: tk length_chunk)
  ultimately show ?thesis
    using assms(1) by (simp add: concat_chunks)
qed

lemma zip_map_int_same: "zip s (map int s) = map (\<lambda>d. (d, int d)) s"
  by (simp add: zip_map2 zip_same_conv_map)

lemma expand_same:
  assumes "valid t"
  shows "expand t (map int (shape t)) = Inr t"
proof -
  let ?s = "shape t"
  have ok: "\<not> list_ex (\<lambda>(i, d, z). z < - 1 \<or> (z = - 1 \<and> i < 0) \<or> (z \<noteq> - 1 \<and> d \<noteq> 1 \<and> int d \<noteq> z))
               (zip [0..<length ?s] (zip ?s (map int ?s)))"
    by (auto simp: list_ex_iff zip_map_int_same dest!: set_zip_rightD)
  have sh: "map2 (\<lambda>d z. if z = - 1 then d else nat z) ?s (map int ?s) = ?s"
    by (simp add: zip_map_int_same comp_def)
  have "\<forall>r \<in> set (map2 (\<lambda>d z. if z = - 1 \<or> int d = z then 1 else nat z) ?s (map int ?s)). r = 1"
    by (simp add: zip_map_int_same)
  then have dt: "repeat_data ?s (map2 (\<lambda>d z. if z = - 1 \<or> int d = z then 1 else nat z) ?s (map int ?s)) (data t)
        = data t"
    using assms by (intro repeat_data_ones) (simp_all add: valid_def)
  show ?thesis
    unfolding expand_def using ok sh dt by (simp add: Let_def)
qed

lemma broadcast_shapes_same: "broadcast_shapes s s = Inr s"
  by (simp add: broadcast_shapes_def Let_def zip_same_conv_map list_all_iff comp_def)

lemma binop_same_shape:
  assumes "valid a" "valid b" "shape a = shape b"
  shows "binop f a b = Inr \<lparr>shape = shape a, data = map2 f (data a) (data b)\<rparr>"
  using assms expand_same [of a] expand_same [of b]
  by (simp add: binop_def broadcast_shapes_same)

lemma select_dim1:
  assumes "shape t = [a, b, c, d]" "i < b"
  shows "select t 1 i = Inr \<lparr>shape = [a, c, d],
            data = concat (map (\<lambda>blk. take (c * d) (drop (i * (c * d)) blk))
                            (chunks (b * (c * d)) a (data t)))\<rparr>"
  using assms by (simp add: select_def Let_def)

lemma select_dim1_valid:
  assumes "shape t = [a, b, c, d]" "valid t" "select t 1 i = Inr t'"
  shows "shape t' = [a, c, d] \<and> valid t' \<and> i < b"
proof -
  have i: "i < b" using assms by (auto simp: select_def split: if_splits)
  have t': "t' = \<lparr>shape = [a, c, d],
            data = concat (map (\<lambda>blk. take (c * d) (drop (i * (c * d)) blk))
                            (chunks (b * (c * d)) a (data t)))\<rparr>"
    using select_dim1 [OF assms(1) i] assms(3) by simp
  have len: "length (data t) = a * (b * (c * d))"
    using assms by (simp add: valid_def)
  have "Suc i * (c * d) \<le> b * (c * d)"
    using i by (intro mult_le_mono1) simp
  then have "\<forall>blk \<in> set (chunks (b * (c * d)) a (data t)).
          length (take (c * d) (drop (i * (c * d)) blk)) = c * d"
    using len by (auto simp: length_chunk)
  then have "length (data t') = a * (c * d)"
    unfolding t' using length_concat_const [of "chunks (b * (c * d)) a (data t)"
        "\<lambda>blk. take (c * d) (drop (i * (c * d)) blk)" "c * d"]
    by simp
  then show ?thesis
    using i by (simp add: t' valid_def)
qed

lemma upt_1: "[0..<Suc 0] = [0]"
  by simp

lemma upt_2: "[0..<2] = [0, 1]"
  by (simp add: upt_rec)

lemma upt_3: "[0..<3] = [0, 1, 2]"
  by (simp add: upt_rec)

lemma upt_4: "[0..<4] = [0, 1, 2, 3]"
  by (simp add: upt_rec)

lemma permute_0213:
  assumes "shape t = [a, b, c, d]"
  shows "permute t [0, 2, 1, 3] =
    Inr \<lparr>shape = [a, c, b, d],
         data = map (\<lambda>j. data t ! ravel [a, b, c, d]
                   [unravel [a, c, b, d] j ! 0, unravel [a, c, b, d] j ! 2,
                    unravel [a, c, b, d] j ! 1, unravel [a, c, b, d] j ! 3])
                 [0..<a * (c * (b * d))]\<rparr>"
  using assms by (simp add: permute_def Let_def upt_4)

lemma permute_0213_valid:
  assumes "shape t = [a, b, c, d]" "permute t [0, 2, 1, 3] = Inr t'"
  shows "shape t' = [a, c, b, d] \<and> valid t'"
  using assms(2) unfolding permute_0213 [OF assms(1)]
  by (auto simp: valid_def)

lemma setitem_blocks:
  assumes "length xs = a * (b * m)" "length vs = a * m" "i < b"
  shows "\<forall>c \<in> set (map2 (\<lambda>blk vb. take (i * m) blk @ vb @ drop (Suc i * m) blk)
                     (chunks (b * m) a xs) (chunks m a vs)). length c = b * m"
proof -
  have le: "Suc i * m \<le> b * m"
    using assms(3) by (intro mult_le_mono1) simp
  have le2: "i * m \<le> b * m"
    using assms(3) by (intro mult_le_mono1) simp
  show ?thesis
  proof (intro ballI)
    fix c assume "c \<in> set (map2 (\<lambda>blk vb. take (i * m) blk @ vb @ drop (Suc i * m) blk)
                     (chunks (b * m) a xs) (chunks m a vs))"
    then obtain blk vb where z: "(blk, vb) \<in> set (zip (chunks (b * m) a xs) (chunks m a vs))"
      and c: "c = take (i * m) blk @ vb @ drop (Suc i * m) blk"
      by auto
    from z have "blk \<in> set (chunks (b * m) a xs)" "vb \<in> set (chunks m a vs)"
      by (auto dest: set_zip_leftD set_zip_rightD)
    then have "length blk = b * m" "length vb = m"
      using assms by (auto simp: length_chunk)
    then show "length c = b * m"
      using le le2 by (simp add: c)
  qed
qed

lemma select_setitem_data:
  assumes "length xs = a * (b * m)" "length vs = a * m" "i < b"
  shows "concat (map (\<lambda>blk. take m (drop (i * m) blk))
           (chunks (b * m) a
              (concat (map2 (\<lambda>blk vb. take (i * m) blk @ vb @ drop (Suc i * m) blk)
                         (chunks (b * m) a xs) (chunks m a vs))))) = vs"
proof -
  let ?g = "\<lambda>blk vb. take (i * m) blk @ vb @ drop (Suc i * m) blk"
  let ?bs = "map2 ?g (chunks (b * m) a xs) (chunks m a vs)"
  have le: "Suc i * m \<le> b * m"
    using assms(3) by (intro mult_le_mono1) simp
  have "chunks (b * m) a (concat ?bs) = ?bs"
    using setitem_blocks [OF assms] by (intro chunks_concat') simp_all
  moreover have "map (\<lambda>blk. take m (drop (i * m) blk)) ?bs
       = map snd (zip (chunks (b * m) a xs) (chunks m a vs))"
    unfolding map_map
  proof (intro map_cong refl)
    fix z assume z: "z \<in> set (zip (chunks (b * m) a xs) (chunks m a vs))"
    obtain blk vb where zz: "z = (blk, vb)" by (cases z)
    from z zz have "blk \<in> set (chunks (b * m) a xs)" "vb \<in> set (chunks m a vs)"
      by (auto dest: set_zip_leftD set_zip_rightD)
    then have "length blk = b * m" "length vb = m"
      using assms by (auto simp: length_chunk)
    moreover have "i * m \<le> b * m"
      using assms(3) by (intro mult_le_mono1) simp
    ultimately show "((\<lambda>blk. take m (drop (i * m) blk)) \<circ> (\<lambda>(x, y). ?g x y)) z = snd z"
      using le by (simp add: zz)
  qed
  moreover have "map snd (zip (chunks (b * m) a xs) (chunks m a vs)) = chunks m a vs"
    by (simp add: map_snd_zip)
  ultimately show ?thesis
    using assms(2) by (simp add: concat_chunks)
qed

lemma setitem_select_dim1:
  assumes "shape t = [a, b, c, d]" "valid t" "shape v = [a, c, d]" "valid v"
    and "setitem_select t 1 i v = Inr t'"
  shows "shape t' = [a, b, c, d] \<and> valid t' \<and> select t' 1 i = Inr v"
proof -
  have i: "i < b"
    using assms by (auto simp: setitem_select_def split: if_splits)
  have ex: "expand v (map int [a, c, d]) = Inr v"
    using expand_same [OF assms(4)] assms(3) by simp
  let ?m = "c * d"
  let ?g = "\<lambda>blk vb. take (i * ?m) blk @ vb @ drop (Suc i * ?m) blk"
  let ?bs = "map2 ?g (chunks (b * ?m) a (data t)) (chunks ?m a (data v))"
  have t': "t' = t\<lparr>data := concat ?bs\<rparr>"
    using assms(1,5) i ex by (simp add: setitem_select_def Let_def)
  have lx: "length (data t) = a * (b * ?m)" and lv: "length (data v) = a * ?m"
    using assms by (simp_all add: valid_def)
  have "length (concat ?bs) = length ?bs * (b * ?m)"
    using setitem_blocks [OF lx lv i] length_concat_const [of ?bs "\<lambda>x. x" "b * ?m"] by simp
  then have v': "valid t'"
    using assms(1) by (simp add: t' valid_def)
  have sh: "shape t' = [a, b, c, d]"
    using assms(1) by (simp add: t')
  have "select t' 1 i = Inr \<lparr>shape = [a, c, d], data = data v\<rparr>"
    unfolding select_dim1 [OF sh i] using select_setitem_data [OF lx lv i]
    by (simp add: t')
  then show ?thesis
    using sh v' assms(3) by simp
qed

lemma forward_entry_Inr:
  assumes "forward_entry q fmaps = Inr r"
  obtains B0 N B S C H W fm where
    "shape q = [B0, N, 2]" "fmaps = Some fm" "shape fm = [B, S, C, H, W]"
    "r = ((B, N, S, C, H, W), fm)"
  using assms unfolding forward_entry_def
  by (auto split: list.splits option.splits if_splits)

lemma scale_query_points_shape [simp]:
  "shape (scale_query_points p dr q) = shape q"
  by (simp add: scale_query_points_def tdiv_def)

lemma scale_query_points_valid [simp]:
  "valid (scale_query_points p dr q) = valid q"
  by (simp add: scale_query_points_def tdiv_def valid_def)

lemma init_coords:
  assumes "reshape (clone q') [int B, 1, int N, 2] = Inr c1" "repeat c1 [1, S, 1, 1] = Inr c"
  shows "shape c = [B, S, N, 2] \<and> valid c
       \<and> (0 < S \<longrightarrow> select c 1 0 = Inr \<lparr>shape = [B, N, 2], data = data q'\<rparr>)"
proof -
  from reshape_valid [OF assms(1)]
  have c1: "valid c1" "shape c1 = [B, 1, N, 2]" "data c1 = data q'"
    by (simp_all add: clone_def)
  have len: "length (data q') = B * (N * 2)"
    using c1 by (simp add: valid_def)
  have c: "c = \<lparr>shape = [B, S, N, 2],
               data = concat (map (\<lambda>blk. concat (replicate S blk)) (chunks (N * 2) B (data q')))\<rparr>"
    using assms(2) c1 repeat_dim1 [OF len, of S]
    by (simp add: repeat_def)
  have v: "valid c"
    using repeat_valid [OF c1(1) assms(2)] .
  have "select c 1 0 = Inr \<lparr>shape = [B, N, 2], data = data q'\<rparr>" if "0 < S"
    using select_dim1 [of c B S N 2 0] that select_dim1_repeat [OF len that]
    by (simp add: c)
  then show ?thesis
    using v by (simp add: c)
qed

lemma forward_init_Inr:
  assumes "forward_init p E q fmaps dr = Inr (L, st)"
  obtains B0 N B S C H W fm where
    "shape q = [B0, N, 2]" "fmaps = Some fm" "shape fm = [B, S, C, H, W]" "0 < S"
    "nB L = B" "nN L = N" "nS L = S" "nHH L = H" "nWW L = W" "down_ratio L = dr"
    "shape (coords st) = [B, S, N, 2]" "valid (coords st)"
    "coords_backup L = coords st" "coord_preds st = []"
    "select (coords st) 1 0 = Inr \<lparr>shape = [B, N, 2], data = data (scale_query_points p dr q)\<rparr>"
proof -
  from assms obtain r where r: "forward_entry q fmaps = Inr r"
    by (auto simp: forward_init_def ebind_Inr_iff)
  then obtain B0 N B S C H W fm where e:
    "shape q = [B0, N, 2]" "fmaps = Some fm" "shape fm = [B, S, C, H, W]"
    "r = ((B, N, S, C, H, W), fm)"
    by (rule forward_entry_Inr)
  let ?q = "scale_query_points p dr q"
  from assms r e obtain c1 c fm0 where
    c1: "reshape (clone ?q) [int B, 1, int N, 2] = Inr c1" and
    c: "repeat c1 [1, S, 1, 1] = Inr c" and
    fm0: "select fm 1 0 = Inr fm0" and
    L: "nB L = B" "nN L = N" "nS L = S" "nHH L = H" "nWW L = W" "down_ratio L = dr"
       "coords_backup L = c" and
    st: "coords st = c" "coord_preds st = []"
    by (auto simp: forward_init_def ebind_Inr_iff Let_def clone_def)
  have S: "0 < S"
    using fm0 e(3) by (auto simp: select_def split: if_splits)
  from init_coords [OF c1 c] S
  have "shape c = [B, S, N, 2]" "valid c"
    "select c 1 0 = Inr \<lparr>shape = [B, N, 2], data = data ?q\<rparr>"
    by simp_all
  then show ?thesis
    using that [OF e(1,2,3) S L(1-6)] L(7) st by simp
qed

lemma update_coords_anchor:
  assumes "update_coords L c dcu = Inr c'"
    and "shape c = [nB L, nS L, nN L, 2]" "valid c"
    and "shape (coords_backup L) = [nB L, nS L, nN L, 2]" "valid (coords_backup L)"
  shows "shape c' = [nB L, nS L, nN L, 2] \<and> valid c'
       \<and> select c' 1 0 = select (coords_backup L) 1 0"
proof -
  from assms(1) obtain dc4 dc c2 b0 where
    dc4: "reshape dcu [int (nB L), int (nN L), int (nS L), 2] = Inr dc4" and
    dc: "permute dc4 [0, 2, 1, 3] = Inr dc" and
    c2: "tadd c dc = Inr c2" and
    b0: "select (coords_backup L) 1 0 = Inr b0" and
    c': "setitem_select c2 1 0 b0 = Inr c'"
    by (auto simp: update_coords_def ebind_Inr_iff)
  have "shape dc4 = [nB L, nN L, nS L, 2]"
    using reshape_valid [OF dc4] by simp
  from permute_0213_valid [OF this dc]
  have dcv: "shape dc = [nB L, nS L, nN L, 2]" "valid dc"
    by simp_all
  have "c2 = \<lparr>shape = shape c, data = map2 (+) (data c) (data dc)\<rparr>"
    using c2 binop_same_shape [OF assms(3) dcv(2), of "(+)"] assms(2) dcv(1)
    by (simp add: tadd_def)
  then have c2v: "shape c2 = [nB L, nS L, nN L, 2]" "valid c2"
    using assms(2,3) dcv by (simp_all add: valid_def)
  from select_dim1_valid [OF assms(4,5) b0]
  have b0v: "shape b0 = [nB L, nN L, 2]" "valid b0"
    by simp_all
  from setitem_select_dim1 [OF c2v b0v c'] b0
  show ?thesis by simp
qed

lemma refine_iter_Inr:
  assumes "refine_iter p E L st = Inr st'"
  obtains dcu where
    "update_coords L (coords st) dcu = Inr (coords st')"
    "coord_preds st' = coord_preds st @ [rescale_coords p (down_ratio L) (coords st')]"
  using assms unfolding refine_iter_def Let_def detach_def
  by (auto simp: ebind_Inr_iff)

lemma ebind_assoc: "ebind (ebind m f) g = ebind m (\<lambda>x. ebind (f x) g)"
  by (cases m) simp_all

lemma refine_loop_Suc_end:
  "refine_loop p E L (Suc n) st = ebind (refine_loop p E L n st) (refine_iter p E L)"
proof (induction n arbitrary: st)
  case 0
  show ?case by (cases "refine_iter p E L st") simp_all
next
  case (Suc n)
  have "refine_loop p E L (Suc (Suc n)) st
          = ebind (refine_iter p E L st) (\<lambda>s. refine_loop p E L (Suc n) s)"
    by (simp only: refine_loop.simps(2) [of p E L "Suc n"])
  also have "\<dots> = ebind (refine_iter p E L st)
                     (\<lambda>s. ebind (refine_loop p E L n s) (refine_iter p E L))"
    by (simp only: Suc)
  also have "\<dots> = ebind (refine_loop p E L (Suc n) st) (refine_iter p E L)"
    by (simp add: ebind_assoc)
  finally show ?case .
qed

lemma refine_iter_inv:
  assumes "refine_iter p E L st = Inr st'"
    and "shape (coords st) = [nB L, nS L, nN L, 2]" "valid (coords st)"
    and "shape (coords_backup L) = [nB L, nS L, nN L, 2]" "valid (coords_backup L)"
  shows "shape (coords st') = [nB L, nS L, nN L, 2] \<and> valid (coords st')
       \<and> select (coords st') 1 0 = select (coords_backup L) 1 0"
proof -
  from assms(1) obtain dcu where
    u: "update_coords L (coords st) dcu = Inr (coords st')"
    by (rule refine_iter_Inr)
  from update_coords_anchor [OF u assms(2-5)]
  show ?thesis by simp
qed

lemma refine_loop_inv:
  assumes "refine_loop p E L n st = Inr st'"
    and "shape (coords st) = [nB L, nS L, nN L, 2]" "valid (coords st)"
    and "shape (coords_backup L) = [nB L, nS L, nN L, 2]" "valid (coords_backup L)"
  shows "shape (coords st') = [nB L, nS L, nN L, 2] \<and> valid (coords st')
       \<and> (0 < n \<longrightarrow> select (coords st') 1 0 = select (coords_backup L) 1 0)"
  using assms(1)
proof (induction n arbitrary: st')
  case 0
  then show ?case using assms(2,3) by simp
next
  case (Suc n)
  from Suc.prems obtain sm where
    sm: "refine_loop p E L n st = Inr sm" and it: "refine_iter p E L sm = Inr st'"
    unfolding refine_loop_Suc_end by (auto simp: ebind_Inr_iff)
  from Suc.IH [OF sm]
  have inv: "shape (coords sm) = [nB L, nS L, nN L, 2]" "valid (coords sm)"
    by simp_all
  from refine_iter_inv [OF it inv assms(4,5)]
  show ?case by simp
qed

lemma refine_loop_preds:
  assumes "refine_loop p E L n st = Inr st'"
  shows "\<exists>ps. coord_preds st' = coord_preds st @ ps \<and> length ps = n
             \<and> (0 < n \<longrightarrow> last ps = rescale_coords p (down_ratio L) (coords st'))"
  using assms
proof (induction n arbitrary: st')
  case 0
  then show ?case by simp
next
  case (Suc n)
  from Suc.prems obtain sm where
    sm: "refine_loop p E L n st = Inr sm" and it: "refine_iter p E L sm = Inr st'"
    unfolding refine_loop_Suc_end by (auto simp: ebind_Inr_iff)
  from Suc.IH [OF sm] obtain ps where
    ps: "coord_preds sm = coord_preds st @ ps" "length ps = n"
    by auto
  from it obtain dcu where
    "coord_preds st' = coord_preds sm @ [rescale_coords p (down_ratio L) (coords st')]"
    by (rule refine_iter_Inr)
  then have "coord_preds st' = coord_preds st @ (ps @ [rescale_coords p (down_ratio L) (coords st')])"
    using ps by simp
  then show ?case
    using ps(2) by (intro exI [of _ "ps @ [rescale_coords p (down_ratio L) (coords st')]"]) simp
qed

lemma refine_loop_add:
  "refine_loop p E L (m + n) st = ebind (refine_loop p E L m st) (refine_loop p E L n)"
proof (induction m arbitrary: st)
  case 0
  show ?case by simp
next
  case (Suc m)
  have "refine_loop p E L (m + n) = (\<lambda>x. ebind (refine_loop p E L m x) (refine_loop p E L n))"
    by (rule ext) (rule Suc)
  then show ?case
    by (simp add: ebind_assoc)
qed

lemma refine_loop_prefix:
  assumes "refine_loop p E L n st = Inr st'" "m \<le> n"
  obtains sm where "refine_loop p E L m st = Inr sm" "refine_loop p E L (n - m) sm = Inr st'"
proof -
  have "n = m + (n - m)" using assms(2) by simp
  then have "ebind (refine_loop p E L m st) (refine_loop p E L (n - m)) = Inr st'"
    using assms(1) refine_loop_add [of p E L m "n - m" st] by simp
  then show ?thesis
    using that by (auto simp: ebind_Inr_iff)
qed

section \<open>Facts about entries, the start of the loop and the visibility head\<close>

lemma nth_concat_const:
  "\<forall>b \<in> set bs. length b = m \<Longrightarrow> i < length bs \<Longrightarrow> j < m \<Longrightarrow>
   concat bs ! (i * m + j) = bs ! i ! j"
proof (induction bs arbitrary: i)
  case Nil
  then show ?case by simp
next
  case (Cons b bs)
  show ?case
  proof (cases i)
    case 0
    then show ?thesis using Cons.prems by (simp add: nth_append)
  next
    case (Suc i')
    then have "concat (b # bs) ! (i * m + j) = concat bs ! (i' * m + j)"
      using Cons.prems by (simp add: nth_append)
    then show ?thesis
      using Cons.IH [of i'] Cons.prems Suc by simp
  qed
qed

lemma nth_chunk:
  assumes "length xs = d * n" "i < d" "j < n"
  shows "chunks n d xs ! i ! j = xs ! (i * n + j)"
proof -
  have "Suc i * n \<le> d * n"
    using assms(2) by (intro mult_le_mono1) simp
  then have "i * n + j < length xs"
    using assms by simp
  then show ?thesis
    using assms by (simp add: nth_chunks)
qed

lemma nth_concat_replicate:
  assumes "s < S" "j < length c"
  shows "concat (replicate S c) ! (s * length c + j) = c ! j"
  using nth_concat_const [of "replicate S c" "length c" s j] assms by simp

lemma nth_tiled:
  assumes "length xs = B * m" "b < B" "s < S" "j < m"
  shows "concat (map (\<lambda>blk. concat (replicate S blk)) (chunks m B xs)) ! ((b * S + s) * m + j)
           = xs ! (b * m + j)"
proof -
  let ?bs = "map (\<lambda>blk. concat (replicate S blk)) (chunks m B xs)"
  have len: "\<forall>c \<in> set ?bs. length c = S * m"
    using assms(1) by (auto simp: length_concat_replicate length_chunk)
  have lc: "length (chunks m B xs ! b) = m"
    using assms(1,2) by (intro length_chunk [of _ m B xs]) simp_all
  have "Suc s * m \<le> S * m"
    using assms(3) by (intro mult_le_mono1) simp
  then have sj: "s * m + j < S * m"
    using assms(4) by simp
  have eq: "(b * S + s) * m + j = b * (S * m) + (s * m + j)"
    by (simp add: algebra_simps)
  have "concat ?bs ! (b * (S * m) + (s * m + j)) = ?bs ! b ! (s * m + j)"
    using assms(2) sj by (intro nth_concat_const [OF len]) simp_all
  then have "concat ?bs ! ((b * S + s) * m + j) = ?bs ! b ! (s * m + j)"
    by (simp only: eq)
  also have "\<dots> = concat (replicate S (chunks m B xs ! b)) ! (s * length (chunks m B xs ! b) + j)"
    using assms(2) lc by simp
  also have "\<dots> = chunks m B xs ! b ! j"
    using assms(3,4) lc by (intro nth_concat_replicate) simp_all
  also have "\<dots> = xs ! (b * m + j)"
    using assms by (intro nth_chunk) simp_all
  finally show ?thesis .
qed


lemma linear_apply_one:
  assumes "shape t = [m, c]" "valid t" "in_features l = c" "out_features l = 1"
  shows "linear_apply l t =
           Inr \<lparr>shape = [m, 1],
                data = map (\<lambda>k. (\<Sum>i\<leftarrow>[0..<c]. data t ! (k * c + i) * weight l 0 i) + bias l 0)
                         [0..<m]\<rparr>"
proof -
  have len: "length (data t) = m * c"
    using assms by (simp add: valid_def)
  have row: "(\<Sum>i\<leftarrow>[0..<c]. chunks c m (data t) ! k ! i * weight l 0 i)
           = (\<Sum>i\<leftarrow>[0..<c]. data t ! (k * c + i) * weight l 0 i)" if "k < m" for k
    by (intro arg_cong [where f = sum_list] map_cong refl)
       (simp add: nth_chunk [OF len that])
  have "concat (map (\<lambda>row. [(\<Sum>i\<leftarrow>[0..<c]. row ! i * weight l 0 i) + bias l 0])
                  (chunks c m (data t)))
      = map (\<lambda>row. (\<Sum>i\<leftarrow>[0..<c]. row ! i * weight l 0 i) + bias l 0) (chunks c m (data t))"
    by (induction "chunks c m (data t)") simp_all
  also have "\<dots> = map (\<lambda>k. (\<Sum>i\<leftarrow>[0..<c]. chunks c m (data t) ! k ! i * weight l 0 i) + bias l 0)
                       [0..<m]"
    by (intro nth_equalityI) simp_all
  also have "\<dots> = map (\<lambda>k. (\<Sum>i\<leftarrow>[0..<c]. data t ! (k * c + i) * weight l 0 i) + bias l 0) [0..<m]"
    by (intro map_cong refl) (simp add: row)
  finally show ?thesis
    using assms by (simp add: linear_apply_def)
qed

lemma tile_frames:
  assumes "shape t = [B, 1, N, D]" "valid t"
  shows "repeat t [1, S, 1, 1] =
           Inr \<lparr>shape = [B, S, N, D],
                data = concat (map (\<lambda>blk. concat (replicate S blk)) (chunks (N * D) B (data t)))\<rparr>"
proof -
  have len: "length (data t) = B * (N * D)"
    using assms by (simp add: valid_def)
  show ?thesis
    using assms(1) repeat_dim1 [OF len, of S] by (simp add: repeat_def)
qed

lemma forward_init_ok:
  assumes q: "shape q = [B, N, 2]" "valid q"
    and fm: "shape fm = [B, S, C, H, W]" "0 < S"
    and fm0: "select fm 1 0 = Inr fm0"
    and qf: "sample_features4d E fm0
               \<lparr>shape = [B, N, 2], data = data (scale_query_points p dr q)\<rparr> = Inr qf"
            "shape qf = [B, N, C']" "valid qf"
    and cf: "(if efficient_corr p
              then map_sum id Efficient (EfficientCorrBlock E fm (corr_levels p) (corr_radius p))
              else map_sum id Dense (CorrBlock E fm (corr_levels p) (corr_radius p))) = Inr cfn"
  shows "\<exists>cds. forward_init p E q (Some fm) dr =
           Inr (\<lparr>nB = B, nN = N, nS = S, nHH = H, nWW = W, down_ratio = dr,
                 query_track_feat = qf, coords_backup = cds, fcorr_fn = cfn\<rparr>,
                \<lparr>coords = cds,
                 track_feats = \<lparr>shape = [B, S, N, C'],
                    data = concat (map (\<lambda>blk. concat (replicate S blk))
                                     (chunks (N * C') B (data qf)))\<rparr>,
                 coord_preds = []\<rparr>)"
proof -
  let ?q = "scale_query_points p dr q"
  have e: "forward_entry q (Some fm) = Inr ((B, N, S, C, H, W), fm)"
    using q(1) fm(1) by (simp add: forward_entry_def)
  have "length (data ?q) = B * (N * 2)"
    using q by (simp add: valid_def scale_query_points_def tdiv_def)
  then have r: "reshape ?q [int B, 1, int N, 2] = Inr (?q\<lparr>shape := [B, 1, N, 2]\<rparr>)"
    by (simp add: reshape_nonneg)
  obtain c where c: "repeat (?q\<lparr>shape := [B, 1, N, 2]\<rparr>) [1, S, 1, 1] = Inr c"
    by (simp add: repeat_def)
  have "reshape (clone ?q) [int B, 1, int N, 2] = Inr (?q\<lparr>shape := [B, 1, N, 2]\<rparr>)"
    using r by (simp add: clone_def)
  from init_coords [OF this c] fm(2)
  have sel: "select c 1 0 = Inr \<lparr>shape = [B, N, 2], data = data ?q\<rparr>"
    by simp
  have u: "unsqueeze qf 1 = Inr (qf\<lparr>shape := [B, 1, N, C']\<rparr>)"
    using qf(2) by (simp add: unsqueeze_def)
  have "valid (qf\<lparr>shape := [B, 1, N, C']\<rparr>)"
    using qf(2,3) by (simp add: valid_def)
  from tile_frames [OF _ this, of B N C' S]
  have t: "repeat (qf\<lparr>shape := [B, 1, N, C']\<rparr>) [1, S, 1, 1] =
           Inr \<lparr>shape = [B, S, N, C'],
                data = concat (map (\<lambda>blk. concat (replicate S blk)) (chunks (N * C') B (data qf)))\<rparr>"
    by simp
  show ?thesis
    unfolding forward_init_def
    by (simp add: e r c fm0 sel qf(1) u t cf clone_def Let_def del: One_nat_def)
qed

lemma nat_int_prod [simp]:
  "nat (int a * int b) = a * b" "nat (int a * int b * int c) = a * b * c"
  by (simp_all add: nat_mult_distrib)

lemma predict_vis_fine: "fine p \<Longrightarrow> predict_vis p L tf = Inr None"
  by (simp add: predict_vis_def)


lemma predict_vis_ok:
  assumes "\<not> fine p" "vis_predictor p = Some l" "in_features l = C" "out_features l = 1"
    and "latent_dim p = int C" "length (data tf) = nB L * nS L * nN L * C"
  shows "predict_vis p L tf =
           Inr (Some \<lparr>shape = [nB L, nS L, nN L],
                      data = map (\<lambda>k. sigmoid ((\<Sum>i\<leftarrow>[0..<C]. data tf ! (k * C + i) * weight l 0 i)
                                               + bias l 0))
                               [0..<nB L * nS L * nN L]\<rparr>)"
proof -
  let ?m = "nB L * nS L * nN L"
  let ?tf2 = "tf\<lparr>shape := [?m, C]\<rparr>"
  have r: "reshape tf [int ?m, latent_dim p] = Inr ?tf2"
    using assms(5,6) by (simp add: reshape_nonneg)
  have v2: "shape ?tf2 = [?m, C]" "valid ?tf2"
    using assms(6) by (simp_all add: valid_def)
  let ?y = "\<lparr>shape = [?m, 1],
            data = map (\<lambda>k. (\<Sum>i\<leftarrow>[0..<C]. data tf ! (k * C + i) * weight l 0 i) + bias l 0)
                     [0..<?m]\<rparr>"
  have la: "linear_apply l ?tf2 = Inr ?y"
    using linear_apply_one [OF v2 assms(3,4)] by simp
  have r2: "reshape ?y [int (nB L), int (nS L), int (nN L)] = Inr (?y\<lparr>shape := [nB L, nS L, nN L]\<rparr>)"
    by (simp add: reshape_nonneg)
  show ?thesis
    unfolding predict_vis_def using assms(1,2)
    by (simp add: r la r2 tmap_def comp_def del: One_nat_def of_nat_mult)
qed

lemma init_Inr:
  assumes "init E st cl cr ld hs us dp fn cf = Inr p"
  shows "fine p = fn" "latent_dim p = ld" "0 \<le> ld"
    "vis_predictor p = (if fn then None
                        else Some \<lparr>in_features = nat ld, out_features = 1,
                                   weight = vis_weight E, bias = vis_bias E\<rparr>)"
    "norm_gn p = \<lparr>num_groups = 1, num_channels = nat ld, eps = 1 / 100000,
                  gn_weight = norm_weight E, gn_bias = norm_bias E\<rparr>"
    "ffeat_updater p = (\<lparr>in_features = nat ld, out_features = nat ld,
                         weight = ffeat_weight E, bias = ffeat_bias E\<rparr>, GELU E)"
  using assms
  by (auto simp: init_def ebind_def Let_def split: option.splits sum.splits if_splits)

section \<open>Facts about concatenation and padding\<close>














section \<open>Facts about broadcasting\<close>




lemma flat_index_less2:
  fixes i j m n :: nat
  assumes "i < m" "j < n"
  shows "i * n + j < m * n"
proof -
  have "i * n + j < i * n + n" using assms(2) by simp
  also have "\<dots> = Suc i * n" by simp
  also have "\<dots> \<le> m * n" using assms(1) by (intro mult_le_mono1) simp
  finally show ?thesis .
qed



section \<open>Facts about the permutation and the layers\<close>

lemma ravel_less:
  "list_all2 (<) idx s \<Longrightarrow> ravel s idx < numel s"
proof (induction s idx rule: ravel.induct)
  case (1 d ds i idx)
  then have i: "i < d" and r: "ravel ds idx < numel ds"
    by simp_all
  have "i * numel ds + ravel ds idx < d * numel ds"
    using i r by (rule flat_index_less2)
  then show ?case by simp
qed auto

lemma unravel_ravel:
  "list_all2 (<) idx s \<Longrightarrow> unravel s (ravel s idx) = idx"
proof (induction s idx rule: ravel.induct)
  case (1 d ds i idx)
  then have r: "ravel ds idx < numel ds" and ih: "unravel ds (ravel ds idx) = idx"
    by (simp_all add: ravel_less)
  show ?case
    using r ih by simp
qed auto

lemma permute_0213_nth:
  assumes "shape t = [a, b, c, d]" "permute t [0, 2, 1, 3] = Inr t'"
    and "i0 < a" "i1 < b" "i2 < c" "i3 < d"
  shows "data t' ! ravel [a, c, b, d] [i0, i2, i1, i3] = data t ! ravel [a, b, c, d] [i0, i1, i2, i3]"
proof -
  let ?j = "ravel [a, c, b, d] [i0, i2, i1, i3]"
  have la: "list_all2 (<) [i0, i2, i1, i3] [a, c, b, d]"
    using assms by simp
  have j: "?j < a * (c * (b * d))"
    using ravel_less [OF la] by simp
  have u: "unravel [a, c, b, d] ?j = [i0, i2, i1, i3]"
    by (rule unravel_ravel [OF la])
  have "data t' = map (\<lambda>j. data t ! ravel [a, b, c, d]
                   [unravel [a, c, b, d] j ! 0, unravel [a, c, b, d] j ! 2,
                    unravel [a, c, b, d] j ! 1, unravel [a, c, b, d] j ! 3])
                 [0..<a * (c * (b * d))]"
    using assms(2) unfolding permute_0213 [OF assms(1)] by auto
  then have "data t' ! ?j = data t ! ravel [a, b, c, d]
                   [unravel [a, c, b, d] ?j ! 0, unravel [a, c, b, d] ?j ! 2,
                    unravel [a, c, b, d] ?j ! 1, unravel [a, c, b, d] ?j ! 3]"
    using j by (simp del: ravel.simps unravel.simps)
  then show ?thesis
    unfolding u by simp
qed

lemma group_norm_one:
  assumes "num_groups g = 1" "num_channels g = C" "shape t = [m, C]" "valid t"
  shows "group_norm_apply g t =
           Inr \<lparr>shape = [m, C],
                data = concat (map (\<lambda>row.
                         map (\<lambda>(e, x). (x - mean row) / sqrt (variance row + eps g) * gn_weight g e
                                        + gn_bias g e)
                             (zip [0..<C] row))
                         (chunks C m (data t)))\<rparr>"
proof -
  have len: "length (data t) = m * C"
    using assms(3,4) by (simp add: valid_def)
  have row: "concat (map (\<lambda>(gi, grp).
                    map (\<lambda>(e, x). (x - mean grp) / sqrt (variance grp + eps g)
                                      * gn_weight g (gi * C + e div 1)
                                    + gn_bias g (gi * C + e div 1))
                        (zip [0..<C * 1] grp))
                    (zip [0..<1] (chunks (C * 1) 1 sample)))
           = map (\<lambda>(e, x). (x - mean sample) / sqrt (variance sample + eps g) * gn_weight g e
                                        + gn_bias g e)
                 (zip [0..<C] sample)"
    if "length sample = C" for sample
    using that by (simp add: chunks_Suc)
  have "map (\<lambda>sample. concat (map (\<lambda>(gi, grp).
                    map (\<lambda>(e, x). (x - mean grp) / sqrt (variance grp + eps g)
                                      * gn_weight g (gi * C + e div 1)
                                    + gn_bias g (gi * C + e div 1))
                        (zip [0..<C * 1] grp))
                    (zip [0..<1] (chunks (C * 1) 1 sample)))) (chunks C m (data t))
      = map (\<lambda>row. map (\<lambda>(e, x). (x - mean row) / sqrt (variance row + eps g) * gn_weight g e
                                        + gn_bias g e)
                             (zip [0..<C] row)) (chunks C m (data t))"
    using len by (intro map_cong refl row) (simp add: length_chunk)
  then show ?thesis
    using assms(1,2,3) by (cases t) (simp add: group_norm_apply_def Let_def cong: map_cong)
qed

lemma group_norm_one_valid:
  assumes "num_groups g = 1" "num_channels g = C" "shape t = [m, C]" "valid t"
    and "group_norm_apply g t = Inr t'"
  shows "shape t' = [m, C] \<and> valid t'"
proof -
  have len: "length (data t) = m * C"
    using assms(3,4) by (simp add: valid_def)
  have "\<forall>row \<in> set (chunks C m (data t)).
          length (map (\<lambda>(e, x). (x - mean row) / sqrt (variance row + eps g) * gn_weight g e
                                        + gn_bias g e) (zip [0..<C] row)) = C"
    using len by (auto simp: length_chunk)
  from length_concat_const [OF this]
  show ?thesis
    using assms(5) unfolding group_norm_one [OF assms(1-4)]
    by (auto simp: valid_def)
qed

lemma linear_apply_valid:
  assumes "shape t = [m, c]" "linear_apply l t = Inr t'"
  shows "shape t' = [m, out_features l] \<and> valid t' \<and> in_features l = c"
proof -
  have c: "in_features l = c"
    using assms by (auto simp: linear_apply_def split: if_splits)
  have "length (concat (map (\<lambda>row. map (\<lambda>j. (\<Sum>i\<leftarrow>[0..<in_features l]. row ! i * weight l j i) + bias l j)
                                        [0..<out_features l])
                    (chunks (in_features l) m (data t)))) = m * out_features l"
    using length_concat_const [of "chunks (in_features l) m (data t)"
        "\<lambda>row. map (\<lambda>j. (\<Sum>i\<leftarrow>[0..<in_features l]. row ! i * weight l j i) + bias l j)
                    [0..<out_features l]" "out_features l"]
    by simp
  then show ?thesis
    using assms c by (auto simp: linear_apply_def valid_def split: if_splits)
qed

lemma update_track_feats_Inr:
  assumes "update_track_feats p L tfu dfu = Inr tf'"
    and "num_groups (norm_gn p) = 1" "num_channels (norm_gn p) = C"
    and "out_features (fst (ffeat_updater p)) = C" "latent_dim p = int C"
    and "shape tfu = [nB L * nN L, nS L, C]" "valid tfu"
  shows "\<exists>d2 nd y t4.
           reshape dfu [int (nB L * nN L * nS L), latent_dim p] = Inr d2
         \<and> shape d2 = [nB L * nN L * nS L, C] \<and> valid d2
         \<and> group_norm_apply (norm_gn p) d2 = Inr nd
         \<and> linear_apply (fst (ffeat_updater p)) nd = Inr y
         \<and> length (data y) = nB L * nN L * nS L * C
         \<and> shape t4 = [nB L, nN L, nS L, C]
         \<and> data t4 = map2 (+) (map (snd (ffeat_updater p)) (data y)) (data tfu)
         \<and> permute t4 [0, 2, 1, 3] = Inr tf'"
proof -
  let ?m = "nB L * nN L * nS L"
  from assms(1) obtain t2 d2 nd upd t3 t4 where
    t2: "reshape tfu [int ?m, latent_dim p] = Inr t2" and
    d2: "reshape dfu [int ?m, latent_dim p] = Inr d2" and
    nd: "group_norm_apply (norm_gn p) d2 = Inr nd" and
    upd: "sequential_apply (ffeat_updater p) nd = Inr upd" and
    t3: "tadd upd t2 = Inr t3" and
    t4: "reshape t3 [int (nB L), int (nN L), int (nS L), latent_dim p] = Inr t4" and
    tf': "permute t4 [0, 2, 1, 3] = Inr tf'"
    unfolding update_track_feats_def by (auto simp: ebind_Inr_iff)
  from reshape_valid [OF t2] assms(5)
  have t2v: "valid t2" "shape t2 = [?m, C]" "data t2 = data tfu"
    by simp_all
  from reshape_valid [OF d2] assms(5)
  have d2v: "valid d2" "shape d2 = [?m, C]"
    by simp_all
  from group_norm_one_valid [OF assms(2,3) d2v(2,1) nd]
  have ndv: "shape nd = [?m, C]" "valid nd"
    by simp_all
  from upd obtain y where
    y: "linear_apply (fst (ffeat_updater p)) nd = Inr y" and
    u: "upd = tmap (snd (ffeat_updater p)) y"
    by (auto simp: sequential_apply_def ebind_Inr_iff)
  from linear_apply_valid [OF ndv(1) y] assms(4)
  have yv: "shape y = [?m, C]" "valid y"
    by simp_all
  have uv: "shape upd = [?m, C]" "valid upd" "data upd = map (snd (ffeat_updater p)) (data y)"
    using yv by (simp_all add: u tmap_def valid_def)
  have "t3 = \<lparr>shape = shape upd, data = map2 (+) (data upd) (data t2)\<rparr>"
    using t3 binop_same_shape [OF uv(2) t2v(1), of "(+)"] uv(1) t2v(2)
    by (simp add: tadd_def)
  then have t3d: "data t3 = map2 (+) (map (snd (ffeat_updater p)) (data y)) (data tfu)"
    using uv(3) t2v(3) by simp
  from reshape_valid [OF t4] assms(5)
  have t4v: "shape t4 = [nB L, nN L, nS L, C]" "data t4 = data t3"
    by simp_all
  have ly: "length (data y) = ?m * C"
    using yv by (simp add: valid_def)
  have t4d: "data t4 = map2 (+) (map (snd (ffeat_updater p)) (data y)) (data tfu)"
    using t4v(2) t3d by simp
  show ?thesis
    using d2 d2v nd y ly t4v(1) t4d tf' by (intro exI [of _ d2] exI [of _ nd] exI [of _ y] exI [of _ t4]) simp
qed

lemma refine_iter_feats:
  assumes "refine_iter p E L s = Inr s'"
  shows "\<exists>tp tfu x d4 delta dfu.
           permute (track_feats s) [0, 2, 1, 3] = Inr tp
         \<and> reshape tp [int (nB L * nN L), int (nS L), latent_dim p] = Inr tfu
         \<and> updateformer p x = Inr d4
         \<and> rearrange_b_n_s_d_to_bn_s_d d4 (nB L) = Inr delta
         \<and> slice delta 2 2 None = Inr dfu
         \<and> update_track_feats p L tfu dfu = Inr (track_feats s')"
proof -
  from assms obtain fe tfu ti x d4 delta dfu where
    ci: "concat_input p E L (coords s) (track_feats s) = Inr (fe, tfu, ti)" and
    r: "updateformer p x = Inr d4" "rearrange_b_n_s_d_to_bn_s_d d4 (nB L) = Inr delta"
       "slice delta 2 2 None = Inr dfu"
       "update_track_feats p L tfu dfu = Inr (track_feats s')"
    unfolding refine_iter_def Let_def detach_def
    by (auto simp: ebind_Inr_iff)
  from ci obtain tp where
    "permute (track_feats s) [0, 2, 1, 3] = Inr tp"
    "reshape tp [int (nB L * nN L), int (nS L), latent_dim p] = Inr tfu"
    unfolding concat_input_def by (auto simp: ebind_Inr_iff)
  then show ?thesis
    using r by blast
qed

section \<open>The example, step by step\<close>

lemma init_demo_predictor:
  "init stub_env 4 1 0 2 384 True 6 False (Some \<lparr>MODEL_TRACK_efficient_corr = False\<rparr>)
     = Inr demo_predictor"
  by (simp add: init_def stub_env_def Let_def init_transformer_dim_def demo_predictor_def)


lemma demo_predictor_sel:
  "stride demo_predictor = 4" "latent_dim demo_predictor = 2" "fine demo_predictor = False"
  by (simp_all add: demo_predictor_def)

lemma demo_locals_sel:
  "nB demo_locals = 1" "nN demo_locals = 1" "nS demo_locals = 2" "down_ratio demo_locals = 1"
  "query_track_feat demo_locals = \<lparr>shape = [1, 1, 2], data = [0, 0]\<rparr>"
  by (simp_all add: demo_locals_def)

lemma demo_forward_init:
  "forward_init demo_predictor stub_env demo_query (Some demo_fmaps) 1 =
     Inr (demo_locals,
          \<lparr>coords = \<lparr>shape = [1, 2, 1, 2], data = [40, 40, 40, 40]\<rparr>,
           track_feats = \<lparr>shape = [1, 2, 1, 2], data = [0, 0, 0, 0]\<rparr>, coord_preds = []\<rparr>)"
  by (simp add: forward_init_def forward_entry_def demo_query_def demo_fmaps_def
      demo_predictor_def demo_locals_def stub_env_def reshape_def repeat_def select_def clone_def
      unsqueeze_def chunks_def const_tensor_def numel_def Let_def scale_query_points_def
      upt_1 upt_2 upt_3 upt_4 numeral_2_eq_2 numeral_3_eq_3)

lemma demo_concat_input_1:
  "concat_input demo_predictor stub_env demo_locals
     \<lparr>shape = [1, 2, 1, 2], data = [40, 40, 40, 40]\<rparr>
     \<lparr>shape = [1, 2, 1, 2], data = [0, 0, 0, 0]\<rparr> =
   Inr (\<lparr>shape = [1, 2, 3], data = [0, 0, 0, 0, 0, 0]\<rparr>,
        \<lparr>shape = [1, 2, 2], data = [0, 0, 0, 0]\<rparr>,
        \<lparr>shape = [1, 2, 6], data = [0, 0, 0, 0, 0, 0, 0, 0, 0, 0, 0, 0]\<rparr>)"
  by code_simp

lemma demo_concat_input_2:
  "concat_input demo_predictor stub_env demo_locals
     \<lparr>shape = [1, 2, 1, 2], data = [40, 40, 41, 41]\<rparr>
     \<lparr>shape = [1, 2, 1, 2], data = [0, 0, 0, 0]\<rparr> =
   Inr (\<lparr>shape = [1, 2, 3], data = [0, 0, 0, 0, 1, 1]\<rparr>,
        \<lparr>shape = [1, 2, 2], data = [0, 0, 0, 0]\<rparr>,
        \<lparr>shape = [1, 2, 6], data = [0, 0, 0, 0, 0, 0, 0, 1, 1, 0, 0, 0]\<rparr>)"
  by code_simp

lemma demo_pad_input_1:
  "pad_input demo_predictor \<lparr>shape = [1, 2, 3], data = [0, 0, 0, 0, 0, 0]\<rparr>
     \<lparr>shape = [1, 2, 6], data = [0, 0, 0, 0, 0, 0, 0, 0, 0, 0, 0, 0]\<rparr>
   = Inr \<lparr>shape = [1, 2, 8], data = [0, 0, 0, 0, 0, 0, 0, 0, 0, 0, 0, 0, 0, 0, 0, 0]\<rparr>"
  by code_simp

lemma demo_pad_input_2:
  "pad_input demo_predictor \<lparr>shape = [1, 2, 3], data = [0, 0, 0, 0, 1, 1]\<rparr>
     \<lparr>shape = [1, 2, 6], data = [0, 0, 0, 0, 0, 0, 0, 1, 1, 0, 0, 0]\<rparr>
   = Inr \<lparr>shape = [1, 2, 8], data = [0, 0, 0, 0, 0, 0, 0, 0, 0, 1, 1, 0, 0, 0, 0, 0]\<rparr>"
  by code_simp

lemma demo_add_pos_embed_1:
  "add_pos_embed demo_predictor stub_env demo_locals
     \<lparr>shape = [1, 2, 1, 2], data = [40, 40, 40, 40]\<rparr>
     \<lparr>shape = [1, 2, 8], data = [0, 0, 0, 0, 0, 0, 0, 0, 0, 0, 0, 0, 0, 0, 0, 0]\<rparr>
   = Inr \<lparr>shape = [1, 1, 2, 8], data = [0, 0, 0, 0, 0, 0, 0, 0, 0, 0, 0, 0, 0, 0, 0, 0]\<rparr>"
  by code_simp

lemma demo_add_pos_embed_2:
  "add_pos_embed demo_predictor stub_env demo_locals
     \<lparr>shape = [1, 2, 1, 2], data = [40, 40, 41, 41]\<rparr>
     \<lparr>shape = [1, 2, 8], data = [0, 0, 0, 0, 0, 0, 0, 0, 0, 1, 1, 0, 0, 0, 0, 0]\<rparr>
   = Inr \<lparr>shape = [1, 1, 2, 8], data = [0, 0, 0, 0, 0, 0, 0, 0, 0, 1, 1, 0, 0, 0, 0, 0]\<rparr>"
  by code_simp

lemma demo_updateformer:
  "updateformer demo_predictor \<lparr>shape = [1, 1, 2, 8], data = xs\<rparr>
   = Inr \<lparr>shape = [1, 1, 2, 4], data = [1, 1, 1, 1, 1, 1, 1, 1]\<rparr>"
  by (simp add: demo_predictor_def const_tensor_def numel_def eval_nat_numeral)

lemma demo_rearrange:
  "rearrange_b_n_s_d_to_bn_s_d \<lparr>shape = [1, 1, 2, 4], data = [1, 1, 1, 1, 1, 1, 1, 1]\<rparr> 1
   = Inr \<lparr>shape = [1, 2, 4], data = [1, 1, 1, 1, 1, 1, 1, 1]\<rparr>"
  by code_simp

lemma demo_slices:
  "slice \<lparr>shape = [1, 2, 4], data = [1, 1, 1, 1, 1, 1, 1, 1]\<rparr> 2 0 (Some 2)
   = Inr \<lparr>shape = [1, 2, 2], data = [1, 1, 1, 1]\<rparr>"
  "slice \<lparr>shape = [1, 2, 4], data = [1, 1, 1, 1, 1, 1, 1, 1]\<rparr> 2 2 None
   = Inr \<lparr>shape = [1, 2, 2], data = [1, 1, 1, 1]\<rparr>"
  by code_simp+

lemma demo_group_norm:
  "group_norm_apply (norm_gn demo_predictor) \<lparr>shape = [2, 2], data = [1, 1, 1, 1]\<rparr>
   = Inr \<lparr>shape = [2, 2], data = [0, 0, 0, 0]\<rparr>"
  by (simp add: group_norm_apply_def demo_predictor_def chunks_def mean_def variance_def upt_2
      Let_def numel_def)

lemma demo_update_track_feats:
  "update_track_feats demo_predictor demo_locals
     \<lparr>shape = [1, 2, 2], data = [0, 0, 0, 0]\<rparr> \<lparr>shape = [1, 2, 2], data = [1, 1, 1, 1]\<rparr>
   = Inr \<lparr>shape = [1, 2, 1, 2], data = [0, 0, 0, 0]\<rparr>"
proof -
  have a: "reshape \<lparr>shape = [1, 2, 2], data = [0, 0, 0, 0]\<rparr>
             [int (nB demo_locals * nN demo_locals * nS demo_locals), latent_dim demo_predictor]
      = Inr \<lparr>shape = [2, 2], data = [0, 0, 0, 0]\<rparr>"
    by code_simp
  have b: "reshape \<lparr>shape = [1, 2, 2], data = [1, 1, 1, 1]\<rparr>
             [int (nB demo_locals * nN demo_locals * nS demo_locals), latent_dim demo_predictor]
      = Inr \<lparr>shape = [2, 2], data = [1, 1, 1, 1]\<rparr>"
    by code_simp
  have c: "sequential_apply (ffeat_updater demo_predictor) \<lparr>shape = [2, 2], data = [0, 0, 0, 0]\<rparr>
      = Inr \<lparr>shape = [2, 2], data = [0, 0, 0, 0]\<rparr>"
    by code_simp
  have d: "ebind (tadd \<lparr>shape = [2, 2], data = [0, 0, 0, 0]\<rparr> \<lparr>shape = [2, 2], data = [0, 0, 0, 0]\<rparr>)
     (\<lambda>track_feats_3.
     ebind (reshape track_feats_3
              [int (nB demo_locals), int (nN demo_locals), int (nS demo_locals),
               latent_dim demo_predictor]) (\<lambda>tf4.
     permute tf4 [0, 2, 1, 3])) = Inr \<lparr>shape = [1, 2, 1, 2], data = [0, 0, 0, 0]\<rparr>"
    by code_simp
  show ?thesis
    unfolding update_track_feats_def by (simp only: a b c d demo_group_norm ebind_Inr)
qed

lemma demo_update_coords_1:
  "update_coords demo_locals \<lparr>shape = [1, 2, 1, 2], data = [40, 40, 40, 40]\<rparr>
     \<lparr>shape = [1, 2, 2], data = [1, 1, 1, 1]\<rparr>
   = Inr \<lparr>shape = [1, 2, 1, 2], data = [40, 40, 41, 41]\<rparr>"
  by code_simp

lemma demo_update_coords_2:
  "update_coords demo_locals \<lparr>shape = [1, 2, 1, 2], data = [40, 40, 41, 41]\<rparr>
     \<lparr>shape = [1, 2, 2], data = [1, 1, 1, 1]\<rparr>
   = Inr \<lparr>shape = [1, 2, 1, 2], data = [40, 40, 42, 42]\<rparr>"
  by code_simp

lemmas demo_steps =
  demo_concat_input_1 demo_concat_input_2 demo_pad_input_1 demo_pad_input_2
  demo_add_pos_embed_1 demo_add_pos_embed_2 demo_updateformer demo_rearrange demo_slices
  demo_update_track_feats demo_update_coords_1 demo_update_coords_2
  demo_locals_sel demo_predictor_sel

lemma demo_refine_iter_1:
  "refine_iter demo_predictor stub_env demo_locals
     \<lparr>coords = \<lparr>shape = [1, 2, 1, 2], data = [40, 40, 40, 40]\<rparr>,
      track_feats = \<lparr>shape = [1, 2, 1, 2], data = [0, 0, 0, 0]\<rparr>, coord_preds = []\<rparr>
   = Inr \<lparr>coords = \<lparr>shape = [1, 2, 1, 2], data = [40, 40, 41, 41]\<rparr>,
          track_feats = \<lparr>shape = [1, 2, 1, 2], data = [0, 0, 0, 0]\<rparr>,
          coord_preds = [\<lparr>shape = [1, 2, 1, 2], data = [160, 160, 164, 164]\<rparr>]\<rparr>"
  unfolding refine_iter_def
  by (simp add: detach_def demo_steps rescale_coords_def tmul_def del: One_nat_def)

lemma demo_refine_iter_2:
  "refine_iter demo_predictor stub_env demo_locals
     \<lparr>coords = \<lparr>shape = [1, 2, 1, 2], data = [40, 40, 41, 41]\<rparr>,
      track_feats = \<lparr>shape = [1, 2, 1, 2], data = [0, 0, 0, 0]\<rparr>,
      coord_preds = [\<lparr>shape = [1, 2, 1, 2], data = [160, 160, 164, 164]\<rparr>]\<rparr>
   = Inr \<lparr>coords = \<lparr>shape = [1, 2, 1, 2], data = [40, 40, 42, 42]\<rparr>,
          track_feats = \<lparr>shape = [1, 2, 1, 2], data = [0, 0, 0, 0]\<rparr>,
          coord_preds = [\<lparr>shape = [1, 2, 1, 2], data = [160, 160, 164, 164]\<rparr>,
                         \<lparr>shape = [1, 2, 1, 2], data = [160, 160, 168, 168]\<rparr>]\<rparr>"
  unfolding refine_iter_def
  by (simp add: detach_def demo_steps rescale_coords_def tmul_def del: One_nat_def)

lemma sigmoid_0: "sigmoid 0 = 1 / 2"
  by (simp add: sigmoid_def)

lemma demo_predict_vis:
  "predict_vis demo_predictor demo_locals \<lparr>shape = [1, 2, 1, 2], data = [0, 0, 0, 0]\<rparr>
   = Inr (Some \<lparr>shape = [1, 2, 1], data = [1 / 2, 1 / 2]\<rparr>)"
proof -
  have a: "ebind (reshape \<lparr>shape = [1, 2, 1, 2], data = [0, 0, 0, 0]\<rparr>
                    [int (nB demo_locals * nS demo_locals * nN demo_locals),
                     latent_dim demo_predictor]) (\<lambda>tf2.
           ebind (linear_apply \<lparr>in_features = 2, out_features = 1,
                                weight = (\<lambda>o' i. 1), bias = (\<lambda>o'. 0)\<rparr> tf2) (\<lambda>v.
           reshape v [int (nB demo_locals), int (nS demo_locals), int (nN demo_locals)]))
           = Inr \<lparr>shape = [1, 2, 1], data = [0, 0]\<rparr>"
    by code_simp
  have "predict_vis demo_predictor demo_locals \<lparr>shape = [1, 2, 1, 2], data = [0, 0, 0, 0]\<rparr>
      = ebind (ebind (reshape \<lparr>shape = [1, 2, 1, 2], data = [0, 0, 0, 0]\<rparr>
                    [int (nB demo_locals * nS demo_locals * nN demo_locals),
                     latent_dim demo_predictor]) (\<lambda>tf2.
           ebind (linear_apply \<lparr>in_features = 2, out_features = 1,
                                weight = (\<lambda>o' i. 1), bias = (\<lambda>o'. 0)\<rparr> tf2) (\<lambda>v.
           reshape v [int (nB demo_locals), int (nS demo_locals), int (nN demo_locals)])))
          (\<lambda>vis_e. Inr (Some (tmap sigmoid vis_e)))"
    unfolding predict_vis_def
    by (simp add: demo_predictor_def ebind_assoc)
  then show ?thesis
    unfolding a by (simp add: tmap_def sigmoid_0)
qed

lemma demo_forward_1:
  "forward demo_predictor stub_env demo_query (Some demo_fmaps) 1 False 1 =
     Inr (Preds [\<lparr>shape = [1, 2, 1, 2], data = [160, 160, 164, 164]\<rparr>]
            (Some \<lparr>shape = [1, 2, 1], data = [1 / 2, 1 / 2]\<rparr>))"
  unfolding forward_def
  by (simp add: demo_forward_init demo_refine_iter_1 demo_predict_vis del: One_nat_def)

lemma demo_refine_loop_2:
  "refine_loop demo_predictor stub_env demo_locals (Suc (Suc 0))
     \<lparr>coords = \<lparr>shape = [1, 2, 1, 2], data = [40, 40, 40, 40]\<rparr>,
      track_feats = \<lparr>shape = [1, 2, 1, 2], data = [0, 0, 0, 0]\<rparr>, coord_preds = []\<rparr>
   = Inr \<lparr>coords = \<lparr>shape = [1, 2, 1, 2], data = [40, 40, 42, 42]\<rparr>,
          track_feats = \<lparr>shape = [1, 2, 1, 2], data = [0, 0, 0, 0]\<rparr>,
          coord_preds = [\<lparr>shape = [1, 2, 1, 2], data = [160, 160, 164, 164]\<rparr>,
                         \<lparr>shape = [1, 2, 1, 2], data = [160, 160, 168, 168]\<rparr>]\<rparr>"
  by (simp add: demo_refine_iter_1 demo_refine_iter_2 del: One_nat_def)

lemma nat_2: "nat 2 = Suc (Suc 0)"
  by simp

lemma demo_forward_2:
  "forward demo_predictor stub_env demo_query (Some demo_fmaps) 2 True 1 =
     Inr (PredsFeats [\<lparr>shape = [1, 2, 1, 2], data = [160, 160, 164, 164]\<rparr>,
                      \<lparr>shape = [1, 2, 1, 2], data = [160, 160, 168, 168]\<rparr>]
            (Some \<lparr>shape = [1, 2, 1], data = [1 / 2, 1 / 2]\<rparr>)
            \<lparr>shape = [1, 2, 1, 2], data = [0, 0, 0, 0]\<rparr>
            \<lparr>shape = [1, 1, 2], data = [0, 0]\<rparr>)"
  unfolding forward_def nat_2
  by (simp add: demo_forward_init demo_refine_loop_2 demo_predict_vis
      demo_locals_sel del: One_nat_def refine_loop.simps)

section \<open>Failure at entry\<close>

lemma forward_Inr:
  assumes "forward p E q fmaps iters rf dr = Inr r"
  obtains L st0 st vis where
    "forward_init p E q fmaps dr = Inr (L, st0)"
    "refine_loop p E L (nat iters) st0 = Inr st"
    "predict_vis p L (track_feats st) = Inr vis"
    "result_preds r = coord_preds st" "result_vis r = vis"
    "r = (if rf then PredsFeats (coord_preds st) vis (track_feats st) (query_track_feat L)
          else Preds (coord_preds st) vis)"
  using assms unfolding forward_def
  by (auto simp: ebind_Inr_iff split: if_splits)

text \<open>
  C9. If the query points have no last dimension of size two, or the feature maps are
  absent or do not have five dimensions, \<^verbatim>\<open>forward\<close> raises: the exception is the one of
  the shape checks at its entry (lines 82 to 85), which read the two shapes only, so that
  no collaborator is called, no iteration runs and nothing is returned.
\<close>

theorem C9_entry_failure:
  assumes "shape q = [] \<or> last (shape q) \<noteq> 2
           \<or> (case fmaps of None \<Rightarrow> True | Some fm \<Rightarrow> length (shape fm) \<noteq> 5)"
  shows "\<exists>e. forward_entry q fmaps = Inl e
            \<and> e \<in> {ValueError, AttributeError, AssertionError}
            \<and> forward p E q fmaps iters rf dr = Inl e"
proof -
  have "\<exists>e. forward_entry q fmaps = Inl e \<and> e \<in> {ValueError, AttributeError, AssertionError}"
    using assms unfolding forward_entry_def
    by (auto split: list.splits option.splits)
  then show ?thesis
    by (auto simp: forward_def forward_init_def)
qed

theorem C9_entry_failure_witness:
  "last (shape \<lparr>shape = [1, 1, 3], data = [40, 40, 40]\<rparr>) \<noteq> 2
   \<and> forward demo_predictor stub_env \<lparr>shape = [1, 1, 3], data = [40, 40, 40]\<rparr>
        (Some demo_fmaps) 4 False 1 = Inl AssertionError"
proof -
  have "forward_entry \<lparr>shape = [1, 1, 3], data = [40, 40, 40]\<rparr> (Some demo_fmaps)
          = Inl AssertionError"
    by (simp add: forward_entry_def demo_fmaps_def const_tensor_def)
  then show ?thesis
    using C9_entry_failure [of "\<lparr>shape = [1, 1, 3], data = [40, 40, 40]\<rparr>" "Some demo_fmaps"
        demo_predictor stub_env 4 False 1]
    by simp
qed

section \<open>The anchor and the predictions\<close>

text \<open>
  C2. In a call that returns, after every iteration \<open>i\<close> (\<open>0 \<le> i < iters\<close>) the frame-0 entry
  \<^verbatim>\<open>coords[:, 0]\<close> is the scaled query tensor itself, whatever the update transformer
  answered, and the prediction appended in that iteration is the rescaled \<^verbatim>\<open>coords\<close> with
  this entry already in place.
\<close>

theorem C2_anchor:
  assumes "forward p E q fmaps iters rf dr = Inr r" and "0 \<le> i" and "i < iters"
  shows "\<exists>L st0 st.
           forward_init p E q fmaps dr = Inr (L, st0)
         \<and> refine_loop p E L (Suc (nat i)) st0 = Inr st
         \<and> select (coords st) 1 0
             = Inr \<lparr>shape = [nB L, nN L, 2], data = data (scale_query_points p dr q)\<rparr>
         \<and> result_preds r ! nat i = rescale_coords p dr (coords st)"
proof -
  from assms(1) obtain L st0 stn vis where
    fi: "forward_init p E q fmaps dr = Inr (L, st0)" and
    lp: "refine_loop p E L (nat iters) st0 = Inr stn" and
    rp: "result_preds r = coord_preds stn"
    by (rule forward_Inr)
  from fi obtain B0 N B S C H W fm where
    L: "nB L = B" "nN L = N" "nS L = S" "down_ratio L = dr" and
    c0: "shape (coords st0) = [B, S, N, 2]" "valid (coords st0)"
        "coords_backup L = coords st0" "coord_preds st0 = []" and
    sel: "select (coords st0) 1 0
            = Inr \<lparr>shape = [B, N, 2], data = data (scale_query_points p dr q)\<rparr>"
    by (rule forward_init_Inr)
  have le: "Suc (nat i) \<le> nat iters"
    using assms(2,3) by simp
  from refine_loop_prefix [OF lp le] obtain st where
    st: "refine_loop p E L (Suc (nat i)) st0 = Inr st" and
    rest: "refine_loop p E L (nat iters - Suc (nat i)) st = Inr stn"
    by blast
  have inv: "shape (coords st0) = [nB L, nS L, nN L, 2]"
            "shape (coords_backup L) = [nB L, nS L, nN L, 2]" "valid (coords_backup L)"
    using L c0 by simp_all
  from refine_loop_inv [OF st inv(1) c0(2) inv(2,3)]
  have anchor: "select (coords st) 1 0 = select (coords_backup L) 1 0"
    by simp
  from refine_loop_preds [OF st] c0(4) obtain ps where
    ps: "coord_preds st = ps" "length ps = Suc (nat i)"
        "last ps = rescale_coords p (down_ratio L) (coords st)"
    by auto
  from refine_loop_preds [OF rest] obtain qs where
    qs: "coord_preds stn = coord_preds st @ qs"
    by auto
  have "result_preds r ! nat i = ps ! nat i"
    using rp qs ps by (simp add: nth_append)
  also have "\<dots> = last ps"
    using ps(2) by (cases ps rule: rev_cases) (simp_all add: nth_append)
  finally have "result_preds r ! nat i = rescale_coords p dr (coords st)"
    using ps(3) L(4) by simp
  then show ?thesis
    using fi st anchor sel c0(3) L by auto
qed

theorem C2_anchor_witness:
  "(0 :: int) \<le> 1 \<and> (1 :: int) < 2
   \<and> (\<exists>r. forward demo_predictor stub_env demo_query (Some demo_fmaps) 2 True 1 = Inr r
        \<and> (\<exists>L st0 st.
              forward_init demo_predictor stub_env demo_query (Some demo_fmaps) 1 = Inr (L, st0)
            \<and> refine_loop demo_predictor stub_env L (Suc (nat 1)) st0 = Inr st
            \<and> select (coords st) 1 0
                = Inr \<lparr>shape = [nB L, nN L, 2],
                       data = data (scale_query_points demo_predictor 1 demo_query)\<rparr>
            \<and> result_preds r ! nat 1 = rescale_coords demo_predictor 1 (coords st)))"
  using C2_anchor [OF demo_forward_2, of 1] demo_forward_2 by simp

text \<open>
  C4. A call with \<open>iters \<ge> 1\<close> that returns gives exactly \<open>iters\<close> predictions; the one at
  position \<open>k\<close> is \<^verbatim>\<open>coords\<close> as it stands after \<open>k + 1\<close> iterations, multiplied by the stride,
  and by \<^verbatim>\<open>down_ratio\<close> as well when that is above one.
\<close>

theorem C4_iteration_count:
  assumes "forward p E q fmaps iters rf dr = Inr r" and "1 \<le> iters"
  shows "int (length (result_preds r)) = iters
       \<and> (\<forall>k < length (result_preds r). \<exists>L st0 st.
             forward_init p E q fmaps dr = Inr (L, st0)
           \<and> refine_loop p E L (Suc k) st0 = Inr st
           \<and> result_preds r ! k =
                (if dr > 1 then tmul (tmul (coords st) (stride p)) dr
                 else tmul (coords st) (stride p)))"
proof -
  from assms(1) obtain L st0 stn vis where
    fi: "forward_init p E q fmaps dr = Inr (L, st0)" and
    lp: "refine_loop p E L (nat iters) st0 = Inr stn" and
    rp: "result_preds r = coord_preds stn"
    by (rule forward_Inr)
  from fi have c0: "coord_preds st0 = []" and dr: "down_ratio L = dr"
    by (auto elim: forward_init_Inr)
  from refine_loop_preds [OF lp] c0 have len: "length (coord_preds stn) = nat iters"
    by auto
  have each: "\<exists>L st0 st.
             forward_init p E q fmaps dr = Inr (L, st0)
           \<and> refine_loop p E L (Suc k) st0 = Inr st
           \<and> result_preds r ! k = rescale_coords p dr (coords st)"
    if "k < length (result_preds r)" for k
  proof -
    have le: "Suc k \<le> nat iters"
      using that rp len by simp
    from refine_loop_prefix [OF lp le] obtain st where
      st: "refine_loop p E L (Suc k) st0 = Inr st" and
      rest: "refine_loop p E L (nat iters - Suc k) st = Inr stn"
      by blast
    from refine_loop_preds [OF st] c0 obtain ps where
      ps: "coord_preds st = ps" "length ps = Suc k"
          "last ps = rescale_coords p (down_ratio L) (coords st)"
      by auto
    from refine_loop_preds [OF rest] obtain qs where
      qs: "coord_preds stn = coord_preds st @ qs"
      by auto
    have "result_preds r ! k = ps ! k"
      using rp qs ps by (simp add: nth_append)
    also have "\<dots> = last ps"
      using ps(2) by (cases ps rule: rev_cases) (simp_all add: nth_append)
    finally show ?thesis
      using fi st ps(3) dr by auto
  qed
  show ?thesis
    using len rp assms(2) each by (simp add: rescale_coords_def)
qed

theorem C4_iteration_count_witness:
  "(1 :: int) \<le> 2
   \<and> (\<exists>r. forward demo_predictor stub_env demo_query (Some demo_fmaps) 2 True 1 = Inr r
        \<and> int (length (result_preds r)) = 2
        \<and> (\<exists>L st0 st.
              forward_init demo_predictor stub_env demo_query (Some demo_fmaps) 1 = Inr (L, st0)
            \<and> refine_loop demo_predictor stub_env L (Suc 1) st0 = Inr st
            \<and> result_preds r ! 1 = tmul (coords st) (stride demo_predictor)))"
proof -
  let ?r = "PredsFeats [\<lparr>shape = [1, 2, 1, 2], data = [160, 160, 164, 164]\<rparr>,
                        \<lparr>shape = [1, 2, 1, 2], data = [160, 160, 168, 168]\<rparr>]
              (Some \<lparr>shape = [1, 2, 1], data = [1 / 2, 1 / 2]\<rparr>)
              \<lparr>shape = [1, 2, 1, 2], data = [0, 0, 0, 0]\<rparr>
              \<lparr>shape = [1, 1, 2], data = [0, 0]\<rparr>"
  have c: "int (length (result_preds ?r)) = 2
       \<and> (\<forall>k < length (result_preds ?r). \<exists>L st0 st.
             forward_init demo_predictor stub_env demo_query (Some demo_fmaps) 1 = Inr (L, st0)
           \<and> refine_loop demo_predictor stub_env L (Suc k) st0 = Inr st
           \<and> result_preds ?r ! k =
                (if (1 :: real) > 1 then tmul (tmul (coords st) (stride demo_predictor)) 1
                 else tmul (coords st) (stride demo_predictor)))"
    by (rule C4_iteration_count [OF demo_forward_2]) simp
  then have "\<exists>L st0 st.
             forward_init demo_predictor stub_env demo_query (Some demo_fmaps) 1 = Inr (L, st0)
           \<and> refine_loop demo_predictor stub_env L (Suc 1) st0 = Inr st
           \<and> result_preds ?r ! 1 =
                (if (1 :: real) > 1 then tmul (tmul (coords st) (stride demo_predictor)) 1
                 else tmul (coords st) (stride demo_predictor))"
    by (elim conjE allE [of _ 1]) simp
  then show ?thesis
    using c demo_forward_2 by simp
qed

section \<open>The scaling of the query points\<close>

text \<open>
  C1, at the input of the specification's example with \<^verbatim>\<open>down_ratio = 1\<close>. The division by
  the stride is in the body of \<^verbatim>\<open>if down_ratio > 1\<close> (line 93), so the loop starts from the
  coordinates \<open>(40, 40)\<close>, not from \<open>(10, 10)\<close>, and the frame-0 entry of the prediction, which
  line 187 multiplies by the stride, is \<open>(160, 160)\<close>, not \<open>(40, 40)\<close>.
\<close>

theorem C1_stride_division_skipped:
  "map_sum id (\<lambda>Ls. coords (snd Ls))
     (forward_init demo_predictor stub_env demo_query (Some demo_fmaps) 1)
     = Inr \<lparr>shape = [1, 2, 1, 2], data = [40, 40, 40, 40]\<rparr>
   \<and> forward demo_predictor stub_env demo_query (Some demo_fmaps) 1 False 1
     = Inr (Preds [\<lparr>shape = [1, 2, 1, 2], data = [160, 160, 164, 164]\<rparr>]
              (Some \<lparr>shape = [1, 2, 1], data = [1 / 2, 1 / 2]\<rparr>))"
  by (simp add: demo_forward_init demo_forward_1)

section \<open>The visibility\<close>



text \<open>
  C10. With \<^verbatim>\<open>iters = 0\<close>, well-shaped inputs (at least one frame, feature maps with
  \<^verbatim>\<open>latent_dim\<close> channels) and collaborators that answer before the loop, \<^verbatim>\<open>forward\<close>
  returns: the list of predictions is empty, and the visibility is absent with \<^verbatim>\<open>fine\<close>
  and otherwise computed, for every frame alike, from the feature sampled at the query
  point in frame 0.
\<close>

theorem C10_zero_iterations:
  assumes q: "shape q = [B, N, 2]" "valid q"
    and fm: "shape fm = [B, S, C, H, W]" "0 < S" "select fm 1 0 = Inr fm0"
    and qf: "sample_features4d E fm0
               \<lparr>shape = [B, N, 2], data = data (scale_query_points p dr q)\<rparr> = Inr qf"
            "shape qf = [B, N, C]" "valid qf"
    and cf: "(if efficient_corr p
              then map_sum id Efficient (EfficientCorrBlock E fm (corr_levels p) (corr_radius p))
              else map_sum id Dense (CorrBlock E fm (corr_levels p) (corr_radius p))) = Inr cfn"
    and p: "latent_dim p = int C"
           "\<not> fine p \<Longrightarrow> vis_predictor p = Some l \<and> in_features l = C \<and> out_features l = 1"
  shows "\<exists>vis tf.
           forward p E q (Some fm) 0 rf dr
             = Inr (if rf then PredsFeats [] vis tf qf else Preds [] vis)
         \<and> (fine p \<longrightarrow> vis = None)
         \<and> (\<not> fine p \<longrightarrow>
              (\<exists>v. vis = Some v \<and> shape v = [B, S, N]
                 \<and> (\<forall>b < B. \<forall>s < S. \<forall>n < N.
                       data v ! ((b * S + s) * N + n)
                         = sigmoid ((\<Sum>i\<leftarrow>[0..<C]. data qf ! ((b * N + n) * C + i) * weight l 0 i)
                                    + bias l 0))))"
proof -
  let ?tfd = "concat (map (\<lambda>blk. concat (replicate S blk)) (chunks (N * C) B (data qf)))"
  let ?tf = "\<lparr>shape = [B, S, N, C], data = ?tfd\<rparr>"
  from forward_init_ok [OF q fm(1,2,3) qf cf] obtain cds where
    fi: "forward_init p E q (Some fm) dr =
           Inr (\<lparr>nB = B, nN = N, nS = S, nHH = H, nWW = W, down_ratio = dr,
                 query_track_feat = qf, coords_backup = cds, fcorr_fn = cfn\<rparr>,
                \<lparr>coords = cds, track_feats = ?tf, coord_preds = []\<rparr>)"
    by blast
  let ?L = "\<lparr>nB = B, nN = N, nS = S, nHH = H, nWW = W, down_ratio = dr,
                 query_track_feat = qf, coords_backup = cds, fcorr_fn = cfn\<rparr>"
  have fw: "forward p E q (Some fm) 0 rf dr =
          ebind (predict_vis p ?L ?tf)
            (\<lambda>vis. Inr (if rf then PredsFeats [] vis ?tf qf else Preds [] vis))"
    unfolding forward_def by (cases rf) (simp_all add: fi)
  show ?thesis
  proof (cases "fine p")
    case True
    then show ?thesis
      using fw by (simp add: predict_vis_fine)
  next
    case False
    with p(2) have l: "vis_predictor p = Some l" "in_features l = C" "out_features l = 1"
      by simp_all
    have lq: "length (data qf) = B * (N * C)"
      using qf(2,3) by (simp add: valid_def)
    have "\<forall>c \<in> set (map (\<lambda>blk. concat (replicate S blk)) (chunks (N * C) B (data qf))).
            length c = S * (N * C)"
      using lq by (auto simp: length_concat_replicate length_chunk)
    from length_concat_const [of _ "\<lambda>x. x", simplified, OF this]
    have len: "length ?tfd = nB ?L * nS ?L * nN ?L * C"
      by simp
    let ?v = "\<lparr>shape = [B, S, N],
               data = map (\<lambda>k. sigmoid ((\<Sum>i\<leftarrow>[0..<C]. ?tfd ! (k * C + i) * weight l 0 i) + bias l 0))
                        [0..<B * S * N]\<rparr>"
    from predict_vis_ok [OF False l p(1), of ?tf ?L] len
    have pv: "predict_vis p ?L ?tf = Inr (Some ?v)"
      by simp
    have ent: "data ?v ! ((b * S + s) * N + n)
                 = sigmoid ((\<Sum>i\<leftarrow>[0..<C]. data qf ! ((b * N + n) * C + i) * weight l 0 i) + bias l 0)"
      if "b < B" "s < S" "n < N" for b s n
    proof -
      have "Suc n \<le> N" using that by simp
      then have "(b * S + s) * N + Suc n \<le> (b * S + s) * N + N"
        by simp
      also have "\<dots> = Suc (b * S + s) * N"
        by simp
      also have "\<dots> \<le> (B * S) * N"
      proof (intro mult_le_mono1)
        have "b * S + Suc s \<le> b * S + S" using that by simp
        also have "\<dots> = Suc b * S" by simp
        also have "\<dots> \<le> B * S" using that by (intro mult_le_mono1) simp
        finally show "Suc (b * S + s) \<le> B * S" by simp
      qed
      finally have k: "(b * S + s) * N + n < B * S * N"
        by simp
      have el: "?tfd ! (((b * S + s) * N + n) * C + i) = data qf ! ((b * N + n) * C + i)"
        if "i < C" for i
      proof -
        have "Suc n * C \<le> N * C"
          using \<open>n < N\<close> by (intro mult_le_mono1) simp
        then have j: "n * C + i < N * C"
          using that by simp
        have e1: "((b * S + s) * N + n) * C + i = (b * S + s) * (N * C) + (n * C + i)"
          by (simp add: algebra_simps)
        have e2: "(b * N + n) * C + i = b * (N * C) + (n * C + i)"
          by (simp add: algebra_simps)
        show ?thesis
          unfolding e1 e2 by (rule nth_tiled [OF lq \<open>b < B\<close> \<open>s < S\<close> j])
      qed
      have "(\<Sum>i\<leftarrow>[0..<C]. ?tfd ! (((b * S + s) * N + n) * C + i) * weight l 0 i)
          = (\<Sum>i\<leftarrow>[0..<C]. data qf ! ((b * N + n) * C + i) * weight l 0 i)"
        by (intro arg_cong [where f = sum_list] map_cong refl) (simp add: el)
      then show ?thesis
        using k by simp
    qed
    show ?thesis
      using fw pv ent False by (auto intro!: exI [of _ "Some ?v"] exI [of _ ?tf])
  qed
qed

theorem C10_zero_iterations_witness:
  "\<exists>v. forward demo_predictor stub_env demo_query (Some demo_fmaps) 0 False 1
          = Inr (Preds [] (Some v))
      \<and> shape v = [1, 2, 1] \<and> data v ! 1 = sigmoid 0"
proof -
  let ?fm0 = "\<lparr>shape = [1, 2, 8, 8], data = replicate 128 (0 :: real)\<rparr>"
  let ?qf = "\<lparr>shape = [1, 1, 2], data = [0, 0 :: real]\<rparr>"
  let ?l = "\<lparr>in_features = 2, out_features = 1, weight = (\<lambda>o' i. 1 :: real), bias = (\<lambda>o'. 0 :: real)\<rparr>"
  have q: "shape demo_query = [1, 1, 2]" "valid demo_query"
    by (simp_all add: demo_query_def valid_def)
  have fm: "shape demo_fmaps = [1, 2, 2, 8, 8]" "(0 :: nat) < 2"
    by (simp_all add: demo_fmaps_def const_tensor_def)
  have sel: "select demo_fmaps 1 0 = Inr ?fm0"
    by (simp add: select_def demo_fmaps_def const_tensor_def chunks_def Let_def)
  have sf: "sample_features4d stub_env ?fm0
              \<lparr>shape = [1, 1, 2], data = data (scale_query_points demo_predictor 1 demo_query)\<rparr>
            = Inr ?qf"
    by (simp add: stub_env_def const_tensor_def numeral_2_eq_2)
  have qf: "shape ?qf = [1, 1, 2]" "valid ?qf"
    by (simp_all add: valid_def)
  obtain cfn where cf:
    "(if efficient_corr demo_predictor
      then map_sum id Efficient (EfficientCorrBlock stub_env demo_fmaps
             (corr_levels demo_predictor) (corr_radius demo_predictor))
      else map_sum id Dense (CorrBlock stub_env demo_fmaps
             (corr_levels demo_predictor) (corr_radius demo_predictor))) = Inr cfn"
    by (simp add: demo_predictor_def stub_env_def)
  have p: "latent_dim demo_predictor = int 2"
    "\<not> fine demo_predictor \<Longrightarrow>
       vis_predictor demo_predictor = Some ?l \<and> in_features ?l = 2 \<and> out_features ?l = 1"
    by (simp_all add: demo_predictor_def)
  from C10_zero_iterations [OF q fm sel sf qf cf p, of False]
  show ?thesis
    by (auto simp: demo_predictor_sel upt_2)
qed

section \<open>The padding of the transformer input\<close>




section \<open>The positional embedding\<close>



section \<open>The residual update of the track features\<close>

text \<open>
  C8. For a predictor built by \<open>init\<close>, in an iteration that returns: the feature part of
  the update transformer's answer is normalised by the group normalisation with a single
  group (each feature vector by its own mean and variance over all channels, then the
  per-channel affine map), passed through the linear layer and the activation, and added
  to the previous track features. Entry \<open>(b, f, n, c)\<close> of the new track features is the
  previous entry \<open>(b, f, n, c)\<close> plus the activation of entry \<open>(b, n, f, c)\<close> of that update;
  the previous value goes through neither the normalisation nor the activation, and the
  shape is kept.
\<close>

theorem C8_residual_update:
  assumes "init E0 sd cl cr ld hs us dp fn cf = Inr p"
    and "refine_iter p E L s = Inr s'"
    and "shape (track_feats s) = [nB L, nS L, nN L, nat ld]"
  shows "\<exists>x d4 delta dfu d2 nd y.
           updateformer p x = Inr d4
         \<and> rearrange_b_n_s_d_to_bn_s_d d4 (nB L) = Inr delta
         \<and> slice delta 2 2 None = Inr dfu
         \<and> reshape dfu [int (nB L * nN L * nS L), ld] = Inr d2
         \<and> num_groups (norm_gn p) = 1
         \<and> group_norm_apply (norm_gn p) d2 = Inr nd
         \<and> data nd = concat (map (\<lambda>row.
                         map (\<lambda>(e, v). (v - mean row) / sqrt (variance row + eps (norm_gn p))
                                          * norm_weight E0 e + norm_bias E0 e)
                             (zip [0..<nat ld] row))
                         (chunks (nat ld) (nB L * nN L * nS L) (data d2)))
         \<and> linear_apply \<lparr>in_features = nat ld, out_features = nat ld,
                          weight = ffeat_weight E0, bias = ffeat_bias E0\<rparr> nd = Inr y
         \<and> shape (track_feats s') = [nB L, nS L, nN L, nat ld]
         \<and> (\<forall>b < nB L. \<forall>f < nS L. \<forall>n < nN L. \<forall>c < nat ld.
               data (track_feats s') ! ravel [nB L, nS L, nN L, nat ld] [b, f, n, c]
                 = GELU E0 (data y ! ravel [nB L, nN L, nS L, nat ld] [b, n, f, c])
                   + data (track_feats s) ! ravel [nB L, nS L, nN L, nat ld] [b, f, n, c])"
proof -
  let ?B = "nB L" and ?S = "nS L" and ?N = "nN L" and ?C = "nat ld"
  note i = init_Inr [OF assms(1)]
  have ld: "latent_dim p = int ?C"
    using i(2,3) by simp
  have gn: "num_groups (norm_gn p) = 1" "num_channels (norm_gn p) = ?C"
    "gn_weight (norm_gn p) = norm_weight E0" "gn_bias (norm_gn p) = norm_bias E0"
    by (simp_all add: i(5))
  have ff: "fst (ffeat_updater p) = \<lparr>in_features = ?C, out_features = ?C,
                                     weight = ffeat_weight E0, bias = ffeat_bias E0\<rparr>"
    "snd (ffeat_updater p) = GELU E0" "out_features (fst (ffeat_updater p)) = ?C"
    by (simp_all add: i(6))
  from refine_iter_feats [OF assms(2)] obtain tp tfu x d4 delta dfu where
    tp: "permute (track_feats s) [0, 2, 1, 3] = Inr tp" and
    tfu: "reshape tp [int (?B * ?N), int ?S, latent_dim p] = Inr tfu" and
    uf: "updateformer p x = Inr d4" "rearrange_b_n_s_d_to_bn_s_d d4 ?B = Inr delta"
        "slice delta 2 2 None = Inr dfu" and
    ut: "update_track_feats p L tfu dfu = Inr (track_feats s')"
    by blast
  from reshape_valid [OF tfu] ld
  have tfuv: "shape tfu = [?B * ?N, ?S, ?C]" "valid tfu" "data tfu = data tp"
    by simp_all
  from update_track_feats_Inr [OF ut gn(1,2) ff(3) ld tfuv(1,2)] obtain d2 nd y t4 where
    d2: "reshape dfu [int (?B * ?N * ?S), latent_dim p] = Inr d2"
        "shape d2 = [?B * ?N * ?S, ?C]" "valid d2" and
    nd: "group_norm_apply (norm_gn p) d2 = Inr nd" and
    y: "linear_apply (fst (ffeat_updater p)) nd = Inr y"
       "length (data y) = ?B * ?N * ?S * ?C" and
    t4: "shape t4 = [?B, ?N, ?S, ?C]"
        "data t4 = map2 (+) (map (snd (ffeat_updater p)) (data y)) (data tfu)"
        "permute t4 [0, 2, 1, 3] = Inr (track_feats s')"
    by blast
  have ndd: "data nd = concat (map (\<lambda>row.
                         map (\<lambda>(e, v). (v - mean row) / sqrt (variance row + eps (norm_gn p))
                                          * norm_weight E0 e + norm_bias E0 e)
                             (zip [0..<?C] row))
                         (chunks ?C (?B * ?N * ?S) (data d2)))"
    using nd unfolding group_norm_one [OF gn(1,2) d2(2,3)] gn(3,4) by auto
  from permute_0213_valid [OF t4(1,3)]
  have sh': "shape (track_feats s') = [?B, ?S, ?N, ?C]"
    by simp
  have lu: "length (data tfu) = ?B * ?N * ?S * ?C"
    using tfuv(1,2) by (simp add: valid_def)
  have ent: "data (track_feats s') ! ravel [?B, ?S, ?N, ?C] [b, f, n, c]
                 = GELU E0 (data y ! ravel [?B, ?N, ?S, ?C] [b, n, f, c])
                   + data (track_feats s) ! ravel [?B, ?S, ?N, ?C] [b, f, n, c]"
    if "b < ?B" "f < ?S" "n < ?N" "c < ?C" for b f n c
  proof -
    let ?j = "ravel [?B, ?N, ?S, ?C] [b, n, f, c]"
    have "list_all2 (<) [b, n, f, c] [?B, ?N, ?S, ?C]"
      using that by simp
    from ravel_less [OF this] have j: "?j < ?B * ?N * ?S * ?C"
      by (simp add: mult.assoc)
    have "data (track_feats s') ! ravel [?B, ?S, ?N, ?C] [b, f, n, c] = data t4 ! ?j"
      by (rule permute_0213_nth [OF t4(1,3) that(1,3,2,4)])
    also have "\<dots> = GELU E0 (data y ! ?j) + data tfu ! ?j"
      using j y(2) lu by (simp add: t4(2) ff(2) del: ravel.simps)
    also have "data tfu ! ?j = data (track_feats s) ! ravel [?B, ?S, ?N, ?C] [b, f, n, c]"
      unfolding tfuv(3) by (rule permute_0213_nth [OF assms(3) tp that])
    finally show ?thesis .
  qed
  have q: "\<forall>b < ?B. \<forall>f < ?S. \<forall>n < ?N. \<forall>c < ?C.
               data (track_feats s') ! ravel [?B, ?S, ?N, ?C] [b, f, n, c]
                 = GELU E0 (data y ! ravel [?B, ?N, ?S, ?C] [b, n, f, c])
                   + data (track_feats s) ! ravel [?B, ?S, ?N, ?C] [b, f, n, c]"
    using ent by blast
  have y': "linear_apply \<lparr>in_features = ?C, out_features = ?C,
                          weight = ffeat_weight E0, bias = ffeat_bias E0\<rparr> nd = Inr y"
    using y(1) unfolding ff(1) .
  have d2': "reshape dfu [int (?B * ?N * ?S), ld] = Inr d2"
    using d2(1) unfolding i(2) .
  show ?thesis
    by (intro exI [of _ x] exI [of _ d4] exI [of _ delta] exI [of _ dfu] exI [of _ d2]
        exI [of _ nd] exI [of _ y] conjI)
       (fact uf d2' gn(1) nd ndd y' sh' q)+
qed

theorem C8_residual_update_witness:
  "init stub_env 4 1 0 2 384 True 6 False (Some \<lparr>MODEL_TRACK_efficient_corr = False\<rparr>)
     = Inr demo_predictor
   \<and> (\<exists>s'. refine_iter demo_predictor stub_env demo_locals
              \<lparr>coords = \<lparr>shape = [1, 2, 1, 2], data = [40, 40, 40, 40]\<rparr>,
               track_feats = \<lparr>shape = [1, 2, 1, 2], data = [0, 0, 0, 0]\<rparr>, coord_preds = []\<rparr>
            = Inr s'
        \<and> (\<exists>dfu d2 nd y.
               reshape dfu [2, 2] = Inr d2
             \<and> group_norm_apply (norm_gn demo_predictor) d2 = Inr nd
             \<and> linear_apply \<lparr>in_features = 2, out_features = 2,
                              weight = ffeat_weight stub_env, bias = ffeat_bias stub_env\<rparr> nd = Inr y
             \<and> shape (track_feats s') = [1, 2, 1, 2]
             \<and> data (track_feats s') ! ravel [1, 2, 1, 2] [0, 1, 0, 1]
                 = GELU stub_env (data y ! ravel [1, 1, 2, 2] [0, 0, 1, 1])
                   + [0, 0, 0, 0] ! ravel [1, 2, 1, 2] [0, 1, 0, 1]))"
proof -
  let ?s = "\<lparr>coords = \<lparr>shape = [1, 2, 1, 2], data = [40, 40, 40, 40]\<rparr>,
               track_feats = \<lparr>shape = [1, 2, 1, 2], data = [0, 0, 0, 0]\<rparr>, coord_preds = []\<rparr>"
  have sh: "shape (track_feats ?s)
              = [nB demo_locals, nS demo_locals, nN demo_locals, nat 2]"
    by (simp add: demo_locals_sel)
  from C8_residual_update [OF init_demo_predictor demo_refine_iter_1 sh]
  obtain dfu d2 nd y where
    a: "reshape dfu [int (nB demo_locals * nN demo_locals * nS demo_locals), 2] = Inr d2"
       "group_norm_apply (norm_gn demo_predictor) d2 = Inr nd"
       "linear_apply \<lparr>in_features = nat 2, out_features = nat 2,
                      weight = ffeat_weight stub_env, bias = ffeat_bias stub_env\<rparr> nd = Inr y" and
    b: "\<forall>b < nB demo_locals. \<forall>f < nS demo_locals. \<forall>n < nN demo_locals. \<forall>c < nat 2.
          data \<lparr>shape = [1, 2, 1, 2], data = [0, 0, 0, 0]\<rparr>
              ! ravel [nB demo_locals, nS demo_locals, nN demo_locals, nat 2] [b, f, n, c]
            = GELU stub_env (data y ! ravel [nB demo_locals, nN demo_locals, nS demo_locals, nat 2]
                                      [b, n, f, c])
              + data (track_feats ?s)
                  ! ravel [nB demo_locals, nS demo_locals, nN demo_locals, nat 2] [b, f, n, c]"
    by auto
  have "data \<lparr>shape = [1, 2, 1, 2], data = [0, 0, 0, 0]\<rparr>
              ! ravel [nB demo_locals, nS demo_locals, nN demo_locals, nat 2] [0, 1, 0, 1]
            = GELU stub_env (data y ! ravel [nB demo_locals, nN demo_locals, nS demo_locals, nat 2]
                                      [0, 0, 1, 1])
              + data (track_feats ?s)
                  ! ravel [nB demo_locals, nS demo_locals, nN demo_locals, nat 2] [0, 1, 0, 1]"
    using b by (simp add: demo_locals_sel del: ravel.simps)
  then show ?thesis
    using a init_demo_predictor demo_refine_iter_1
    by (auto simp: demo_locals_sel simp del: ravel.simps)
qed

section \<open>The width of the update transformer's input\<close>

lemma init_transformer_dim_of:
  assumes "init E st cl cr ld hs us dp fn cf = Inr p"
  shows "transformer_dim p = init_transformer_dim cl cr ld fn"
  using assms
  by (auto simp: init_def ebind_def Let_def split: option.splits sum.splits if_splits)

text \<open>
  C3, as the code has it. Without \<^verbatim>\<open>fine\<close> the width is the base width
  \<open>corr_levels * (2 * corr_radius + 1)\<^sup>2 + 2 * latent_dim\<close> rounded up to the next multiple of
  four. With \<^verbatim>\<open>fine\<close> the constructor adds four to an even base width and five to an odd
  one, which is the legacy rule of line 51 and need not give a multiple of four.
\<close>

theorem C3_transformer_dim_padding:
  assumes "init E st cl cr ld hs us dp fn cf = Inr p"
  shows "(\<not> fn \<longrightarrow>
            transformer_dim p mod 4 = 0
          \<and> cl * (cr * 2 + 1) ^ 2 + ld * 2 \<le> transformer_dim p
          \<and> transformer_dim p < cl * (cr * 2 + 1) ^ 2 + ld * 2 + 4)
       \<and> (fn \<longrightarrow>
            transformer_dim p =
              cl * (cr * 2 + 1) ^ 2 + ld * 2
                + (if (cl * (cr * 2 + 1) ^ 2 + ld * 2) mod 2 = 0 then 4 else 5))"
proof -
  define b where "b = cl * (cr * 2 + 1) ^ 2 + ld * 2"
  have td: "transformer_dim p = (if fn then b + (if b mod 2 = 0 then 4 else 5)
                                 else b + (4 - b mod 4) mod 4)"
    using init_transformer_dim_of [OF assms]
    by (simp add: init_transformer_dim_def Let_def b_def)
  have "\<not> fn \<Longrightarrow> transformer_dim p mod 4 = 0"
    unfolding td by simp presburger
  moreover have "\<not> fn \<Longrightarrow> b \<le> transformer_dim p \<and> transformer_dim p < b + 4"
    unfolding td by simp
  moreover have "fn \<Longrightarrow> transformer_dim p = b + (if b mod 2 = 0 then 4 else 5)"
    unfolding td by simp
  ultimately show ?thesis
    unfolding b_def by blast
qed

theorem C3_transformer_dim_padding_witness:
  "map_sum id transformer_dim
     (init stub_env 4 5 4 128 384 True 6 False (Some \<lparr>MODEL_TRACK_efficient_corr = False\<rparr>))
     = Inr 664
   \<and> (664 :: int) mod 4 = 0 \<and> (5 * (4 * 2 + 1) ^ 2 + 128 * 2 :: int) \<le> 664"
proof -
  obtain p where p:
    "init stub_env 4 5 4 128 384 True 6 False (Some \<lparr>MODEL_TRACK_efficient_corr = False\<rparr>) = Inr p"
    by (simp add: init_def ebind_def stub_env_def Let_def)
  have "transformer_dim p = 664"
    using C3_transformer_dim_padding [OF p] by simp presburger
  then show ?thesis
    using p by simp
qed

theorem C3_fine_mode_counterexample:
  "map_sum id transformer_dim
     (init stub_env 4 5 4 128 384 True 6 True (Some \<lparr>MODEL_TRACK_efficient_corr = False\<rparr>))
     = Inr 666
   \<and> (666 :: int) mod 4 = 2"
  by (simp add: init_def ebind_def stub_env_def Let_def init_transformer_dim_def)

end
